theory Spec2Isabelle
  imports Complex_Main "HOL-Library.AList"
begin

section \<open>Data model\<close>

text \<open>
  Errors of the Python runtime that the modelled functions can raise. Every function
  that can raise returns \<open>py_error + 'a\<close>, with \<open>Inl\<close> for the exception.
\<close>

datatype py_error = IndexError | KeyError | ValueError | ZeroDivisionError | OverflowError

text \<open>
  A Python / numpy float: a finite value, one of the two infinities, or not-a-number.
  Finite values are real numbers; every arithmetic operation takes the rounding function
  \<open>rnd\<close> that maps the exact result to the stored one (the identity for exact
  arithmetic, \<open>binary64\<close> below for IEEE doubles). Overflow to an infinity, subnormal
  numbers and the sign of zero are not modelled.
\<close>

datatype pyfloat = Finite real | PosInf | NegInf | NaN

type_synonym rounding = "real \<Rightarrow> real"

fun isfinite :: "pyfloat \<Rightarrow> bool" where
  "isfinite (Finite x) = True"
| "isfinite PosInf = False"
| "isfinite NegInf = False"
| "isfinite NaN = False"

fun isnan :: "pyfloat \<Rightarrow> bool" where
  "isnan NaN = True"
| "isnan (Finite x) = False"
| "isnan PosInf = False"
| "isnan NegInf = False"

text \<open>The sign of a float that is not NaN, as -1, 0 or 1.\<close>

fun pf_sign :: "pyfloat \<Rightarrow> int" where
  "pf_sign (Finite x) = (if x < 0 then -1 else if x = 0 then 0 else 1)"
| "pf_sign PosInf = 1"
| "pf_sign NegInf = -1"
| "pf_sign NaN = 0"

definition pf_of_sign :: "int \<Rightarrow> pyfloat" where
  "pf_of_sign s = (if s = 0 then NaN else if 0 < s then PosInf else NegInf)"

fun pf_add :: "rounding \<Rightarrow> pyfloat \<Rightarrow> pyfloat \<Rightarrow> pyfloat" where
  "pf_add rnd (Finite x) (Finite y) = Finite (rnd (x + y))"
| "pf_add rnd NaN b = NaN"
| "pf_add rnd a NaN = NaN"
| "pf_add rnd PosInf NegInf = NaN"
| "pf_add rnd NegInf PosInf = NaN"
| "pf_add rnd PosInf b = PosInf"
| "pf_add rnd NegInf b = NegInf"
| "pf_add rnd a PosInf = PosInf"
| "pf_add rnd a NegInf = NegInf"

fun pf_mul :: "rounding \<Rightarrow> pyfloat \<Rightarrow> pyfloat \<Rightarrow> pyfloat" where
  "pf_mul rnd (Finite x) (Finite y) = Finite (rnd (x * y))"
| "pf_mul rnd NaN b = NaN"
| "pf_mul rnd a NaN = NaN"
| "pf_mul rnd a b = pf_of_sign (pf_sign a * pf_sign b)"

text \<open>
  Division as numpy does it (a zero divisor gives an infinity or NaN, with a warning).
  Every division of the modelled code is guarded by a test that the divisor is positive.
\<close>

fun pf_div :: "rounding \<Rightarrow> pyfloat \<Rightarrow> pyfloat \<Rightarrow> pyfloat" where
  "pf_div rnd (Finite x) (Finite y) =
     (if y = 0 then pf_of_sign (pf_sign (Finite x)) else Finite (rnd (x / y)))"
| "pf_div rnd NaN b = NaN"
| "pf_div rnd a NaN = NaN"
| "pf_div rnd (Finite x) b = Finite 0"
| "pf_div rnd a (Finite y) = pf_of_sign (pf_sign a * (if y < 0 then -1 else 1))"
| "pf_div rnd a b = NaN"

text \<open>Comparisons: every comparison with NaN is false.\<close>

fun pf_less :: "pyfloat \<Rightarrow> pyfloat \<Rightarrow> bool" where
  "pf_less (Finite x) (Finite y) = (x < y)"
| "pf_less NaN b = False"
| "pf_less a NaN = False"
| "pf_less a PosInf = (a \<noteq> PosInf)"
| "pf_less NegInf b = (b \<noteq> NegInf)"
| "pf_less a b = False"

fun pf_eq :: "pyfloat \<Rightarrow> pyfloat \<Rightarrow> bool" where
  "pf_eq NaN b = False"
| "pf_eq a NaN = False"
| "pf_eq a b = (a = b)"

definition pf_le :: "pyfloat \<Rightarrow> pyfloat \<Rightarrow> bool" where
  "pf_le a b = (pf_less a b \<or> pf_eq a b)"

text \<open>
  Two rounding functions. \<open>exact\<close> is arithmetic without rounding. \<open>binary64\<close> rounds
  to the nearest IEEE double, ties to the even significand: the exponent \<open>e\<close> of
  \<open>x\<close> has \<open>2 ^ e \<le> \<bar>x\<bar> < 2 ^ (e + 1)\<close> and the doubles near \<open>x\<close> are the multiples
  of \<open>2 ^ (e - 52)\<close> (normal range only).
\<close>

definition exact :: rounding where
  "exact x = x"

definition round_half_even :: "real \<Rightarrow> int" where
  "round_half_even x =
     (let f = \<lfloor>x\<rfloor>; d = x - of_int f in
      if d < 1 / 2 then f else if 1 / 2 < d then f + 1 else if even f then f else f + 1)"

fun exposant_haut :: "nat \<Rightarrow> real \<Rightarrow> int" where
  "exposant_haut 0 x = 0"
| "exposant_haut (Suc n) x = (if x < 2 then 0 else 1 + exposant_haut n (x / 2))"

fun exposant_bas :: "nat \<Rightarrow> real \<Rightarrow> int" where
  "exposant_bas 0 x = 0"
| "exposant_bas (Suc n) x = (if 1 \<le> x then 0 else exposant_bas n (2 * x) - 1)"

definition exposant :: "real \<Rightarrow> int" where
  "exposant x = (if 1 \<le> \<bar>x\<bar> then exposant_haut 1023 \<bar>x\<bar> else exposant_bas 1022 \<bar>x\<bar>)"

definition binary64 :: rounding where
  "binary64 x =
     (if x = 0 then 0
      else (let u = 2 powi (exposant x - 52) in of_int (round_half_even (x / u)) * u))"

text \<open>
  \<open>np.sum\<close> of a one-dimensional array: 0.0 for the empty array, otherwise the elements
  added from left to right. (numpy adds arrays of eight elements and more in blocks;
  the grouping changes the rounding only.)
\<close>

fun np_sum :: "rounding \<Rightarrow> pyfloat list \<Rightarrow> pyfloat" where
  "np_sum rnd [] = Finite 0"
| "np_sum rnd (x # xs) = foldl (pf_add rnd) x xs"

definition np_mean :: "rounding \<Rightarrow> pyfloat list \<Rightarrow> pyfloat" where
  "np_mean rnd xs = pf_div rnd (np_sum rnd xs) (Finite (real (length xs)))"

text \<open>
  Indexing a list or a numpy axis of length \<open>n\<close>: indices \<open>0 .. n-1\<close>, the negative
  indices \<open>-n .. -1\<close> counting from the end, IndexError otherwise.
\<close>

definition np_index :: "'a list \<Rightarrow> int \<Rightarrow> py_error + 'a" where
  "np_index xs i =
     (let n = int (length xs) in
      if 0 \<le> i \<and> i < n then Inr (xs ! nat i)
      else if - n \<le> i \<and> i < 0 then Inr (xs ! nat (n + i))
      else Inl IndexError)"

definition np_store :: "'a list \<Rightarrow> int \<Rightarrow> 'a \<Rightarrow> py_error + 'a list" where
  "np_store xs i v =
     (let n = int (length xs) in
      if 0 \<le> i \<and> i < n then Inr (xs[nat i := v])
      else if - n \<le> i \<and> i < 0 then Inr (xs[nat (n + i) := v])
      else Inl IndexError)"

text \<open>A raster is the list of its rows; \<open>ras[lig, col]\<close> indexes the row, then the column.\<close>

type_synonym raster = "pyfloat list list"

definition np_index2 :: "raster \<Rightarrow> int \<Rightarrow> int \<Rightarrow> py_error + pyfloat" where
  "np_index2 ras lig col =
     (case np_index ras lig of Inl e \<Rightarrow> Inl e | Inr row \<Rightarrow> np_index row col)"

definition np_store2 :: "raster \<Rightarrow> int \<Rightarrow> int \<Rightarrow> pyfloat \<Rightarrow> py_error + raster" where
  "np_store2 ras lig col v =
     (case np_index ras lig of
        Inl e \<Rightarrow> Inl e
      | Inr row \<Rightarrow>
          (case np_store row col v of
             Inl e \<Rightarrow> Inl e
           | Inr row' \<Rightarrow> np_store ras lig row'))"

text \<open>
  A Python dict is an association list with distinct keys, in insertion order:
  \<open>map_of\<close> looks a key up, \<open>AList.update\<close> stores (in place for a key that is
  present, at the end for a new one), and iterating over \<open>items()\<close> is iterating over
  the list.

  The pixel-to-triangles correspondence maps \<open>(ligne, colonne)\<close> to a list of
  \<open>(id_triangle, aire)\<close>; the triangle-to-pixels correspondence maps \<open>id_triangle\<close> to
  a list of \<open>(ligne, colonne, aire)\<close>.
\<close>

type_synonym map_px = "((int \<times> int) \<times> (int \<times> pyfloat) list) list"
type_synonym tri_px = "(int \<times> (int \<times> int \<times> pyfloat) list) list"

section \<open>Mapping inversion\<close>

text \<open>
  \<open>tri_px[int(id_tri)].append((int(lig), int(col), float(aire)))\<close> on a
  \<open>defaultdict(list)\<close>: a missing key starts from the empty list.
\<close>

definition dd_append :: "int \<Rightarrow> (int \<times> int \<times> pyfloat) \<Rightarrow> tri_px \<Rightarrow> tri_px" where
  "dd_append id_tri e d =
     AList.update id_tri ((case map_of d id_tri of None \<Rightarrow> [] | Some l \<Rightarrow> l) @ [e]) d"

text \<open>\<open>tri_px[id_tri] = tri_px.get(id_tri, [])\<close>\<close>

definition dd_backfill :: "int \<Rightarrow> tri_px \<Rightarrow> tri_px" where
  "dd_backfill id_tri d =
     AList.update id_tri (case map_of d id_tri of None \<Rightarrow> [] | Some l \<Rightarrow> l) d"

definition inverser_pixel :: "(int \<times> int) \<times> (int \<times> pyfloat) list \<Rightarrow> tri_px \<Rightarrow> tri_px" where
  "inverser_pixel item d =
     (case item of ((lig, col), lst) \<Rightarrow>
        fold (\<lambda>(id_tri, aire). dd_append id_tri (lig, col, aire)) lst d)"

definition inverser_mapping :: "map_px \<Rightarrow> int \<Rightarrow> tri_px" where
  "inverser_mapping map_px nb_triangles =
     fold dd_backfill [0..nb_triangles - 1] (fold inverser_pixel map_px [])"

text \<open>
  The claim's words: the occurrences of triangle \<open>t\<close> in the forward map, each
  \<open>(t, aire)\<close> under key \<open>(ligne, colonne)\<close> giving \<open>(ligne, colonne, aire)\<close>.
\<close>

definition occurrences_pixel :: "int \<Rightarrow> (int \<times> int) \<times> (int \<times> pyfloat) list \<Rightarrow> (int \<times> int \<times> pyfloat) list" where
  "occurrences_pixel t item =
     (case item of ((lig, col), lst) \<Rightarrow>
        map (\<lambda>(id_tri, aire). (lig, col, aire)) (filter (\<lambda>(id_tri, aire). id_tri = t) lst))"

definition occurrences :: "int \<Rightarrow> map_px \<Rightarrow> (int \<times> int \<times> pyfloat) list" where
  "occurrences t map_px = concat (map (occurrences_pixel t) map_px)"

definition triangle_ids :: "map_px \<Rightarrow> int set" where
  "triangle_ids map_px = fst ` (\<Union>item \<in> set map_px. set (snd item))"

section \<open>Cell-to-triangle aggregation\<close>

text \<open>
  The inner loop of \<open>moyenne_pixels_par_triangle\<close>: reads \<open>ras[lig, col]\<close> for every
  pixel of the triangle, skips the non-finite values, and appends the others to \<open>vals\<close>
  and their areas to \<open>poids\<close>.
\<close>

fun filtre_pixels ::
  "raster \<Rightarrow> (int \<times> int \<times> pyfloat) list \<Rightarrow> pyfloat list \<Rightarrow> pyfloat list
     \<Rightarrow> py_error + (pyfloat list \<times> pyfloat list)" where
  "filtre_pixels ras [] vals poids = Inr (vals, poids)"
| "filtre_pixels ras ((lig, col, aire) # pixels) vals poids =
     (case np_index2 ras lig col of
        Inl e \<Rightarrow> Inl e
      | Inr v \<Rightarrow>
          if \<not> isfinite v then filtre_pixels ras pixels vals poids
          else filtre_pixels ras pixels (vals @ [v]) (poids @ [aire]))"

text \<open>
  The body of the loop over the triangles: \<open>None\<close> when the body leaves
  \<open>val_tri[id_tri]\<close> as it is (one of the two \<open>continue\<close>, or the weights do not sum to
  a positive number), \<open>Some v\<close> when it assigns \<open>v\<close>.
\<close>

definition valeur_triangle ::
  "rounding \<Rightarrow> raster \<Rightarrow> (int \<times> int \<times> pyfloat) list \<Rightarrow> bool \<Rightarrow> py_error + pyfloat option" where
  "valeur_triangle rnd ras pixels pondere =
     (if pixels = [] then Inr None
      else
        (case filtre_pixels ras pixels [] [] of
           Inl e \<Rightarrow> Inl e
         | Inr (vals, poids) \<Rightarrow>
             if vals = [] then Inr None
             else if pondere then
               (if pf_less (Finite 0) (np_sum rnd poids)
                then Inr (Some (pf_div rnd (np_sum rnd (map2 (pf_mul rnd) vals poids))
                                  (np_sum rnd poids)))
                else Inr None)
             else Inr (Some (np_mean rnd vals))))"

fun boucle_triangles ::
  "rounding \<Rightarrow> raster \<Rightarrow> bool \<Rightarrow> tri_px \<Rightarrow> pyfloat list \<Rightarrow> py_error + pyfloat list" where
  "boucle_triangles rnd ras pondere [] val_tri = Inr val_tri"
| "boucle_triangles rnd ras pondere ((id_tri, pixels) # reste) val_tri =
     (case valeur_triangle rnd ras pixels pondere of
        Inl e \<Rightarrow> Inl e
      | Inr None \<Rightarrow> boucle_triangles rnd ras pondere reste val_tri
      | Inr (Some v) \<Rightarrow>
          (case np_store val_tri id_tri v of
             Inl e \<Rightarrow> Inl e
           | Inr val_tri' \<Rightarrow> boucle_triangles rnd ras pondere reste val_tri'))"

definition moyenne_pixels_par_triangle ::
  "rounding \<Rightarrow> raster \<Rightarrow> tri_px \<Rightarrow> bool \<Rightarrow> pyfloat \<Rightarrow> py_error + pyfloat list" where
  "moyenne_pixels_par_triangle rnd ras tri_px pondere rempl =
     boucle_triangles rnd ras pondere tri_px (replicate (length tri_px) rempl)"

text \<open>
  The claim's words. The pairs that remain for a triangle: the (cell value, area) pairs
  of its pixels, without those whose cell value is not finite.
\<close>

definition paires_retenues :: "raster \<Rightarrow> (int \<times> int \<times> pyfloat) list \<Rightarrow> (pyfloat \<times> pyfloat) list" where
  "paires_retenues ras pixels =
     filter (\<lambda>(v, aire). isfinite v)
       (map (\<lambda>(lig, col, aire). (ras ! nat lig ! nat col, aire)) pixels)"

text \<open>
  The weighted mean \<open>\<Sum>(v * aire) / \<Sum>aire\<close> when pairs remain and \<open>\<Sum>aire > 0\<close>,
  the arithmetic mean in unweighted mode when pairs remain, and the no-value marker
  \<open>rempl\<close> otherwise.
\<close>

definition moyenne_attendue :: "rounding \<Rightarrow> bool \<Rightarrow> pyfloat \<Rightarrow> (pyfloat \<times> pyfloat) list \<Rightarrow> pyfloat" where
  "moyenne_attendue rnd pondere rempl paires =
     (if pondere then
        (if paires \<noteq> [] \<and> pf_less (Finite 0) (np_sum rnd (map snd paires))
         then pf_div rnd (np_sum rnd (map (\<lambda>(v, aire). pf_mul rnd v aire) paires))
                (np_sum rnd (map snd paires))
         else rempl)
      else
        (if paires \<noteq> [] then np_mean rnd (map fst paires) else rempl))"

text \<open>The keys of a triangle-to-pixels map are the positions of the result array.\<close>

definition cles_valides :: "tri_px \<Rightarrow> bool" where
  "cles_valides tri_px =
     (distinct (map fst tri_px) \<and> (\<forall>k \<in> set (map fst tri_px). 0 \<le> k \<and> k < int (length tri_px)))"

text \<open>Every pixel of the map is a cell of the raster.\<close>

definition pixels_dans_raster :: "raster \<Rightarrow> (int \<times> int \<times> pyfloat) list \<Rightarrow> bool" where
  "pixels_dans_raster ras pixels =
     (\<forall>(lig, col, aire) \<in> set pixels.
        0 \<le> lig \<and> lig < int (length ras) \<and> 0 \<le> col \<and> col < int (length (ras ! nat lig)))"

section \<open>Triangle-to-cell aggregation\<close>

text \<open>
  The loop of \<open>sm_vers_mh_raster\<close> over \<open>map_px.items()\<close> (the steps before it read the
  grid, the mesh and the values; the loop sees their results \<open>map_px\<close>, \<open>val_tri\<close> and
  the shape of the raster).

  Unweighted branch: \<open>vals = [float(val_tri[int(id_tri)]) for (id_tri, aire) in lst]\<close>.
\<close>

fun valeurs_triangles :: "pyfloat list \<Rightarrow> (int \<times> pyfloat) list \<Rightarrow> py_error + pyfloat list" where
  "valeurs_triangles val_tri [] = Inr []"
| "valeurs_triangles val_tri ((id_tri, aire) # lst) =
     (case np_index val_tri id_tri of
        Inl e \<Rightarrow> Inl e
      | Inr v \<Rightarrow>
          (case valeurs_triangles val_tri lst of
             Inl e \<Rightarrow> Inl e
           | Inr vals \<Rightarrow> Inr (v # vals)))"

text \<open>Weighted branch: the loop that accumulates \<open>num\<close> and \<open>den\<close>.\<close>

fun somme_ponderee ::
  "rounding \<Rightarrow> pyfloat list \<Rightarrow> (int \<times> pyfloat) list \<Rightarrow> pyfloat \<Rightarrow> pyfloat
     \<Rightarrow> py_error + (pyfloat \<times> pyfloat)" where
  "somme_ponderee rnd val_tri [] num den = Inr (num, den)"
| "somme_ponderee rnd val_tri ((id_tri, aire) # lst) num den =
     (if pf_le aire (Finite 0) then somme_ponderee rnd val_tri lst num den
      else
        (case np_index val_tri id_tri of
           Inl e \<Rightarrow> Inl e
         | Inr vt \<Rightarrow>
             if \<not> isfinite vt then somme_ponderee rnd val_tri lst num den
             else somme_ponderee rnd val_tri lst
                    (pf_add rnd num (pf_mul rnd vt aire)) (pf_add rnd den aire)))"

definition valeur_pixel ::
  "rounding \<Rightarrow> pyfloat list \<Rightarrow> (int \<times> pyfloat) list \<Rightarrow> bool \<Rightarrow> py_error + pyfloat option" where
  "valeur_pixel rnd val_tri lst pondere =
     (if lst = [] then Inr None
      else if \<not> pondere then
        (case valeurs_triangles val_tri lst of
           Inl e \<Rightarrow> Inl e
         | Inr vals \<Rightarrow> if vals \<noteq> [] then Inr (Some (np_mean rnd vals)) else Inr None)
      else
        (case somme_ponderee rnd val_tri lst (Finite 0) (Finite 0) of
           Inl e \<Rightarrow> Inl e
         | Inr (num, den) \<Rightarrow>
             if pf_less (Finite 0) den then Inr (Some (pf_div rnd num den)) else Inr None))"

fun boucle_pixels ::
  "rounding \<Rightarrow> pyfloat list \<Rightarrow> bool \<Rightarrow> map_px \<Rightarrow> raster \<Rightarrow> py_error + raster" where
  "boucle_pixels rnd val_tri pondere [] ras_rec = Inr ras_rec"
| "boucle_pixels rnd val_tri pondere (((lig, col), lst) # reste) ras_rec =
     (case valeur_pixel rnd val_tri lst pondere of
        Inl e \<Rightarrow> Inl e
      | Inr None \<Rightarrow> boucle_pixels rnd val_tri pondere reste ras_rec
      | Inr (Some v) \<Rightarrow>
          (case np_store2 ras_rec lig col v of
             Inl e \<Rightarrow> Inl e
           | Inr ras_rec' \<Rightarrow> boucle_pixels rnd val_tri pondere reste ras_rec'))"

definition sm_vers_mh_raster ::
  "rounding \<Rightarrow> map_px \<Rightarrow> pyfloat list \<Rightarrow> nat \<times> nat \<Rightarrow> bool \<Rightarrow> py_error + raster" where
  "sm_vers_mh_raster rnd map_px val_tri forme pondere =
     (case forme of (nb_lignes, nb_colonnes) \<Rightarrow>
        boucle_pixels rnd val_tri pondere map_px
          (replicate nb_lignes (replicate nb_colonnes NaN)))"

text \<open>
  \<open>projette_triangles_surface\<close> (module \<open>mapping\<close>): the area-weighted mean per pixel;
  it skips the triangle values that are NaN (\<open>np.isnan\<close>).
\<close>

fun somme_surface ::
  "rounding \<Rightarrow> pyfloat list \<Rightarrow> (int \<times> pyfloat) list \<Rightarrow> pyfloat \<Rightarrow> pyfloat
     \<Rightarrow> py_error + (pyfloat \<times> pyfloat)" where
  "somme_surface rnd valeurs [] num den = Inr (num, den)"
| "somme_surface rnd valeurs ((id_tri, aire) # liste) num den =
     (case np_index valeurs id_tri of
        Inl e \<Rightarrow> Inl e
      | Inr v \<Rightarrow>
          if isnan v then somme_surface rnd valeurs liste num den
          else somme_surface rnd valeurs liste
                 (pf_add rnd num (pf_mul rnd v aire)) (pf_add rnd den aire))"

fun boucle_surface ::
  "rounding \<Rightarrow> pyfloat list \<Rightarrow> map_px \<Rightarrow> raster \<Rightarrow> py_error + raster" where
  "boucle_surface rnd valeurs [] raster = Inr raster"
| "boucle_surface rnd valeurs (((ligne, colonne), liste) # reste) raster =
     (case somme_surface rnd valeurs liste (Finite 0) (Finite 0) of
        Inl e \<Rightarrow> Inl e
      | Inr (num, den) \<Rightarrow>
          if pf_less (Finite 0) den then
            (case np_store2 raster ligne colonne (pf_div rnd num den) of
               Inl e \<Rightarrow> Inl e
             | Inr raster' \<Rightarrow> boucle_surface rnd valeurs reste raster')
          else boucle_surface rnd valeurs reste raster)"

definition projette_triangles_surface ::
  "rounding \<Rightarrow> pyfloat list \<Rightarrow> map_px \<Rightarrow> nat \<times> nat \<Rightarrow> pyfloat \<Rightarrow> py_error + raster" where
  "projette_triangles_surface rnd valeurs mapping_surface forme fill =
     (case forme of (nb_lignes, nb_colonnes) \<Rightarrow>
        boucle_surface rnd valeurs mapping_surface
          (replicate nb_lignes (replicate nb_colonnes fill)))"

section \<open>Constant fields\<close>

text \<open>The aggregation is weighted by positive, finite areas.\<close>

definition aires_positives :: "(int \<times> int \<times> pyfloat) list \<Rightarrow> bool" where
  "aires_positives pixels = (\<forall>(lig, col, aire) \<in> set pixels. \<exists>a. aire = Finite a \<and> 0 < a)"

definition champ_constant :: "raster \<Rightarrow> real \<Rightarrow> bool" where
  "champ_constant ras C = (\<forall>row \<in> set ras. \<forall>v \<in> set row. isfinite v \<longrightarrow> v = Finite C)"

section \<open>Grid indexing and the mappers\<close>

text \<open>
  Coordinates are real numbers (rounding of the coordinate arithmetic is not modelled).
  A geotransform is the GDAL tuple \<open>(x_min, dx, rx, y_max, ry, dy)\<close>, a point of the mesh
  is \<open>(x, y, z)\<close> and a triangle is a triple of indices into the array of points.
\<close>

type_synonym geotransform = "real \<times> real \<times> real \<times> real \<times> real \<times> real"
type_synonym point3 = "real \<times> real \<times> real"
type_synonym triangle = "int \<times> int \<times> int"
type_synonym point = "real \<times> real"

text \<open>Python's \<open>int()\<close> of a float truncates towards zero.\<close>

definition py_int :: "real \<Rightarrow> int" where
  "py_int r = (if 0 \<le> r then \<lfloor>r\<rfloor> else \<lceil>r\<rceil>)"

text \<open>Division of two Python floats raises ZeroDivisionError on a zero divisor.\<close>

definition py_div :: "real \<Rightarrow> real \<Rightarrow> py_error + real" where
  "py_div a b = (if b = 0 then Inl ZeroDivisionError else Inr (a / b))"

definition xy_vers_pixel :: "real \<Rightarrow> real \<Rightarrow> geotransform \<Rightarrow> py_error + (int \<times> int)" where
  "xy_vers_pixel x y gt =
     (case gt of (gt0, gt1, gt2, gt3, gt4, gt5) \<Rightarrow>
        (case py_div (x - gt0) gt1 of
           Inl e \<Rightarrow> Inl e
         | Inr qc \<Rightarrow>
             (case py_div (y - gt3) gt5 of
                Inl e \<Rightarrow> Inl e
              | Inr ql \<Rightarrow> Inr (py_int ql, py_int qc))))"

text \<open>\<open>mapping.setdefault(key, []).append(v)\<close>\<close>

definition setdefault_append :: "'k \<Rightarrow> 'v \<Rightarrow> ('k \<times> 'v list) list \<Rightarrow> ('k \<times> 'v list) list" where
  "setdefault_append k v d =
     AList.update k ((case map_of d k of None \<Rightarrow> [] | Some l \<Rightarrow> l) @ [v]) d"

text \<open>\<open>points[tri]\<close>: the three vertices of a triangle, IndexError on a bad index.\<close>

definition sommets :: "point3 list \<Rightarrow> triangle \<Rightarrow> py_error + (point3 \<times> point3 \<times> point3)" where
  "sommets points tri =
     (case tri of (i0, i1, i2) \<Rightarrow>
        (case np_index points i0 of
           Inl e \<Rightarrow> Inl e
         | Inr p0 \<Rightarrow>
             (case np_index points i1 of
                Inl e \<Rightarrow> Inl e
              | Inr p1 \<Rightarrow>
                  (case np_index points i2 of
                     Inl e \<Rightarrow> Inl e
                   | Inr p2 \<Rightarrow> Inr (p0, p1, p2)))))"

definition xy :: "point3 \<Rightarrow> point" where
  "xy p = (case p of (x, y, z) \<Rightarrow> (x, y))"

text \<open>
  \<open>mapping_barycentre\<close>. The barycentres are computed for the whole array first
  (\<open>points[triangles][:, :, :2].mean(axis=1)\<close>), then the loop assigns each triangle to
  the pixel of its barycentre.
\<close>

fun barycentres :: "point3 list \<Rightarrow> triangle list \<Rightarrow> py_error + point list" where
  "barycentres points [] = Inr []"
| "barycentres points (tri # triangles) =
     (case sommets points tri of
        Inl e \<Rightarrow> Inl e
      | Inr (p0, p1, p2) \<Rightarrow>
          (case barycentres points triangles of
             Inl e \<Rightarrow> Inl e
           | Inr bs \<Rightarrow>
               Inr (((fst (xy p0) + fst (xy p1) + fst (xy p2)) / 3,
                     (snd (xy p0) + snd (xy p1) + snd (xy p2)) / 3) # bs)))"

fun boucle_barycentre ::
  "geotransform \<Rightarrow> int \<times> int \<Rightarrow> (int \<times> point) list \<Rightarrow> ((int \<times> int) \<times> int list) list
     \<Rightarrow> py_error + ((int \<times> int) \<times> int list) list" where
  "boucle_barycentre gt forme [] mapping = Inr mapping"
| "boucle_barycentre gt forme ((id_tri, (x, y)) # reste) mapping =
     (case xy_vers_pixel x y gt of
        Inl e \<Rightarrow> Inl e
      | Inr (ligne, colonne) \<Rightarrow>
          if \<not> (0 \<le> ligne \<and> ligne < fst forme \<and> 0 \<le> colonne \<and> colonne < snd forme)
          then boucle_barycentre gt forme reste mapping
          else boucle_barycentre gt forme reste
                 (setdefault_append (ligne, colonne) id_tri mapping))"

text \<open>\<open>enumerate(xs)\<close>\<close>

definition enumerate_py :: "'a list \<Rightarrow> (int \<times> 'a) list" where
  "enumerate_py xs = zip (map int [0..<length xs]) xs"

definition mapping_barycentre ::
  "point3 list \<Rightarrow> triangle list \<Rightarrow> geotransform \<Rightarrow> int \<times> int
     \<Rightarrow> py_error + ((int \<times> int) \<times> int list) list" where
  "mapping_barycentre points triangles gt shape_raster =
     (case barycentres points triangles of
        Inl e \<Rightarrow> Inl e
      | Inr bs \<Rightarrow> boucle_barycentre gt shape_raster (enumerate_py bs) [])"

text \<open>
  \<open>mapping_surface\<close> builds its polygons and intersects them with the shapely library,
  which is not part of the repository. The library is a parameter of the model: the
  emptiness, the area and the bounds of a polygon given by its vertices, and the
  intersection of a polygon with the box \<open>(minx, miny, maxx, maxy)\<close>, as the pair of its
  \<open>is_empty\<close> and its \<open>area\<close>.
\<close>

type_synonym boite = "real \<times> real \<times> real \<times> real"

record shapely =
  poly_is_empty :: "point list \<Rightarrow> bool"
  poly_area :: "point list \<Rightarrow> real"
  poly_bounds :: "point list \<Rightarrow> boite"
  intersection :: "point list \<Rightarrow> boite \<Rightarrow> bool \<times> real"

text \<open>The box of pixel \<open>(ligne, colonne)\<close>: \<open>(px_min, py_min, px_max, py_max)\<close>.\<close>

definition boite_pixel :: "geotransform \<Rightarrow> int \<Rightarrow> int \<Rightarrow> boite" where
  "boite_pixel gt ligne colonne =
     (case gt of (x0, dx, rx, y0, ry, dy) \<Rightarrow>
        (x0 + of_int colonne * dx, y0 + (of_int ligne + 1) * dy,
         x0 + (of_int colonne + 1) * dx, y0 + of_int ligne * dy))"

text \<open>The body of the two inner loops, for one candidate pixel.\<close>

definition ajoute_pixel ::
  "shapely \<Rightarrow> geotransform \<Rightarrow> point list \<Rightarrow> int \<Rightarrow> int \<times> int \<Rightarrow> map_px \<Rightarrow> map_px" where
  "ajoute_pixel G gt poly_tri id_tri cellule mapping =
     (case cellule of (ligne, colonne) \<Rightarrow>
        (let inter = intersection G poly_tri (boite_pixel gt ligne colonne) in
         if fst inter then mapping
         else
           (let aire = snd inter in
            if aire \<le> 0 then mapping
            else setdefault_append (ligne, colonne) (id_tri, Finite aire) mapping)))"

text \<open>
  The candidate pixels of a triangle, in the order of the two nested \<open>range\<close> loops.
\<close>

definition pixels_candidats :: "int \<Rightarrow> int \<Rightarrow> int \<Rightarrow> int \<Rightarrow> (int \<times> int) list" where
  "pixels_candidats lig_min lig_max col_min col_max =
     concat (map (\<lambda>ligne. map (\<lambda>colonne. (ligne, colonne)) [col_min..col_max]) [lig_min..lig_max])"

definition polygone_triangle :: "point3 \<times> point3 \<times> point3 \<Rightarrow> point list" where
  "polygone_triangle pts = (case pts of (p0, p1, p2) \<Rightarrow> [xy p0, xy p1, xy p2])"

text \<open>The body of the loop over the triangles.\<close>

definition traite_triangle ::
  "shapely \<Rightarrow> point3 list \<Rightarrow> geotransform \<Rightarrow> int \<times> int \<Rightarrow> int \<times> triangle \<Rightarrow> map_px
     \<Rightarrow> py_error + map_px" where
  "traite_triangle G points gt forme item mapping =
     (case item of (id_tri, tri) \<Rightarrow>
      case gt of (x0, dx, rx, y0, ry, dy) \<Rightarrow>
      case forme of (nb_lignes, nb_colonnes) \<Rightarrow>
        (case sommets points tri of
           Inl e \<Rightarrow> Inl e
         | Inr pts \<Rightarrow>
             (let poly_tri = polygone_triangle pts in
              if poly_is_empty G poly_tri \<or> poly_area G poly_tri \<le> 0 then Inr mapping
              else
                (case poly_bounds G poly_tri of (minx, miny, maxx, maxy) \<Rightarrow>
                   if dx = 0 then Inl ZeroDivisionError
                   else if dy = 0 then Inl ZeroDivisionError
                   else
                     (let col_min = max \<lfloor>(minx - x0) / dx\<rfloor> 0;
                          lig_min = max \<lfloor>(maxy - y0) / dy\<rfloor> 0;
                          col_max = min \<lfloor>(maxx - x0) / dx\<rfloor> (nb_colonnes - 1);
                          lig_max = min \<lfloor>(miny - y0) / dy\<rfloor> (nb_lignes - 1)
                      in Inr (fold (ajoute_pixel G gt poly_tri id_tri)
                                (pixels_candidats lig_min lig_max col_min col_max) mapping))))))"

fun boucle_mapping_surface ::
  "shapely \<Rightarrow> point3 list \<Rightarrow> geotransform \<Rightarrow> int \<times> int \<Rightarrow> (int \<times> triangle) list \<Rightarrow> map_px
     \<Rightarrow> py_error + map_px" where
  "boucle_mapping_surface G points gt forme [] mapping = Inr mapping"
| "boucle_mapping_surface G points gt forme (item # reste) mapping =
     (case traite_triangle G points gt forme item mapping of
        Inl e \<Rightarrow> Inl e
      | Inr mapping' \<Rightarrow> boucle_mapping_surface G points gt forme reste mapping')"

definition mapping_surface ::
  "shapely \<Rightarrow> point3 list \<Rightarrow> triangle list \<Rightarrow> geotransform \<Rightarrow> int \<times> int \<Rightarrow> py_error + map_px" where
  "mapping_surface G points triangles gt shape_raster =
     boucle_mapping_surface G points gt shape_raster (enumerate_py triangles) []"

section \<open>Exact geometry\<close>

text \<open>
  Modelled from the spec: the geometry primitives of section 4.1 (polygon area,
  intersection of a triangle with an axis-aligned rectangle and its area), which the
  source takes from the shapely library. The intersection of a convex polygon with a box
  is computed by clipping the polygon against the four sides of the box in turn; the
  area is the absolute value of the shoelace sum.
\<close>

definition lacet :: "point list \<Rightarrow> real" where
  "lacet ps =
     (case ps of
        [] \<Rightarrow> 0
      | p # qs \<Rightarrow> sum_list (map2 (\<lambda>(x1, y1) (x2, y2). x1 * y2 - x2 * y1) ps (qs @ [p])))"

definition aire_polygone :: "point list \<Rightarrow> real" where
  "aire_polygone ps = \<bar>lacet ps\<bar> / 2"

definition bornes_polygone :: "point list \<Rightarrow> boite" where
  "bornes_polygone ps =
     (case ps of
        [] \<Rightarrow> (0, 0, 0, 0)
      | p # qs \<Rightarrow>
          (fold min (map fst qs) (fst p), fold min (map snd qs) (snd p),
           fold max (map fst qs) (fst p), fold max (map snd qs) (snd p)))"

text \<open>A side of the box, as the half-plane to keep.\<close>

datatype bord = Gauche real | Droite real | Bas real | Haut real

fun dedans :: "bord \<Rightarrow> point \<Rightarrow> bool" where
  "dedans (Gauche c) (x, y) = (c \<le> x)"
| "dedans (Droite c) (x, y) = (x \<le> c)"
| "dedans (Bas c) (x, y) = (c \<le> y)"
| "dedans (Haut c) (x, y) = (y \<le> c)"

text \<open>The point where the segment from \<open>s\<close> to \<open>e\<close> crosses the line of the side.\<close>

fun croisement :: "bord \<Rightarrow> point \<Rightarrow> point \<Rightarrow> point" where
  "croisement (Gauche c) (sx, sy) (ex, ey) = (c, sy + (c - sx) / (ex - sx) * (ey - sy))"
| "croisement (Droite c) (sx, sy) (ex, ey) = (c, sy + (c - sx) / (ex - sx) * (ey - sy))"
| "croisement (Bas c) (sx, sy) (ex, ey) = (sx + (c - sy) / (ey - sy) * (ex - sx), c)"
| "croisement (Haut c) (sx, sy) (ex, ey) = (sx + (c - sy) / (ey - sy) * (ex - sx), c)"

fun decoupe_aretes :: "bord \<Rightarrow> point \<Rightarrow> point list \<Rightarrow> point list" where
  "decoupe_aretes b s [] = []"
| "decoupe_aretes b s (e # es) =
     (if dedans b e then (if dedans b s then [e] else [croisement b s e, e])
      else (if dedans b s then [croisement b s e] else []))
     @ decoupe_aretes b e es"

definition decoupe :: "bord \<Rightarrow> point list \<Rightarrow> point list" where
  "decoupe b ps = (if ps = [] then [] else decoupe_aretes b (last ps) ps)"

definition intersection_exacte :: "point list \<Rightarrow> boite \<Rightarrow> bool \<times> real" where
  "intersection_exacte poly b =
     (case b of (bx0, by0, bx1, by1) \<Rightarrow>
        (let ps = decoupe (Haut (max by0 by1)) (decoupe (Bas (min by0 by1))
                    (decoupe (Droite (max bx0 bx1)) (decoupe (Gauche (min bx0 bx1)) poly)))
         in (ps = [], aire_polygone ps)))"

definition geometrie_exacte :: shapely where
  "geometrie_exacte =
     \<lparr>poly_is_empty = (\<lambda>ps. ps = []),
      poly_area = aire_polygone,
      poly_bounds = bornes_polygone,
      intersection = intersection_exacte\<rparr>"





section \<open>Statements about the surface mapper\<close>





section \<open>Text\<close>

text \<open>
  Python strings are lists of characters (ASCII). A text file is the list of its lines, as
  the iteration over the file yields them and as the calls of \<open>write\<close> produce them: each
  call of the writers below writes one whole line, with its newline at the end.

  \<open>str.isspace\<close>, \<open>str.strip\<close>, \<open>str.split\<close> without argument, \<open>str.lower\<close>,
  \<open>str.startswith\<close> and \<open>str.replace\<close> of a tabulation by a space.
\<close>

definition isspace :: "char \<Rightarrow> bool" where
  "isspace c = (c \<in> {CHR '' '', CHR 0x09, CHR 0x0A, CHR 0x0B, CHR 0x0C, CHR 0x0D,
                      CHR 0x1C, CHR 0x1D, CHR 0x1E, CHR 0x1F})"

definition strip :: "string \<Rightarrow> string" where
  "strip s = rev (dropWhile isspace (rev (dropWhile isspace s)))"

fun mots :: "string \<Rightarrow> string \<Rightarrow> string list" where
  "mots cur [] = (if cur = [] then [] else [cur])"
| "mots cur (c # cs) =
     (if isspace c then (if cur = [] then mots [] cs else cur # mots [] cs)
      else mots (cur @ [c]) cs)"

definition split :: "string \<Rightarrow> string list" where
  "split s = mots [] s"

definition lower_char :: "char \<Rightarrow> char" where
  "lower_char c =
     (if (65 :: nat) \<le> of_char c \<and> of_char c \<le> (90 :: nat) then char_of (of_char c + (32 :: nat)) else c)"

definition lower :: "string \<Rightarrow> string" where
  "lower s = map lower_char s"

definition startswith :: "string \<Rightarrow> string \<Rightarrow> bool" where
  "startswith s p = (take (length p) s = p)"

definition replace_tab :: "string \<Rightarrow> string" where
  "replace_tab s = map (\<lambda>c. if c = CHR 0x09 then CHR '' '' else c) s"

text \<open>Decimal digits, and the decimal writing of a natural number and of an integer.\<close>

definition est_chiffre :: "char \<Rightarrow> bool" where
  "est_chiffre c = ((48 :: nat) \<le> of_char c \<and> of_char c \<le> (57 :: nat))"

definition valeur_chiffre :: "char \<Rightarrow> int" where
  "valeur_chiffre c = int (of_char c) - 48"

definition chiffre :: "nat \<Rightarrow> char" where
  "chiffre d = char_of (48 + d)"

fun str_nat :: "nat \<Rightarrow> string" where
  "str_nat n = (if n < 10 then [chiffre n] else str_nat (n div 10) @ [chiffre (n mod 10)])"

declare str_nat.simps [simp del]

definition str_int :: "int \<Rightarrow> string" where
  "str_int i = (if i < 0 then CHR ''-'' # str_nat (nat (- i)) else str_nat (nat i))"

text \<open>
  A run of digits as Python's \<open>int\<close> and \<open>float\<close> read it: digits, with single
  underscores allowed between two digits.
\<close>

fun soulignes_valides :: "string \<Rightarrow> bool" where
  "soulignes_valides [] = True"
| "soulignes_valides [c] = est_chiffre c"
| "soulignes_valides (c # d # cs) =
     ((est_chiffre c \<or> (c = CHR ''_'' \<and> est_chiffre d)) \<and> soulignes_valides (d # cs))"

definition valeur_chiffres :: "string \<Rightarrow> int" where
  "valeur_chiffres s = foldl (\<lambda>n c. 10 * n + valeur_chiffre c) 0 (filter est_chiffre s)"

definition partie_chiffres :: "string \<Rightarrow> int option" where
  "partie_chiffres s =
     (case s of
        [] \<Rightarrow> None
      | c # cs \<Rightarrow> if est_chiffre c \<and> soulignes_valides s then Some (valeur_chiffres s) else None)"

text \<open>A run of digits with an optional sign.\<close>

definition entier_signe :: "string \<Rightarrow> int option" where
  "entier_signe s =
     (case s of
        [] \<Rightarrow> None
      | c # cs \<Rightarrow>
          if c = CHR ''-'' then map_option uminus (partie_chiffres cs)
          else if c = CHR ''+'' then partie_chiffres cs
          else partie_chiffres s)"

text \<open>\<open>int(s)\<close> of a string, in base 10.\<close>

definition py_int_str :: "string \<Rightarrow> py_error + int" where
  "py_int_str s = (case entier_signe (strip s) of None \<Rightarrow> Inl ValueError | Some i \<Rightarrow> Inr i)"

text \<open>
  \<open>float(s)\<close> of a string: an optional sign, then \<open>nan\<close>, \<open>inf\<close> or \<open>infinity\<close> in any
  case, or a decimal number with an optional fraction and an optional exponent. The
  value of a number is rounded by \<open>rnd\<close>.
\<close>

definition est_e :: "char \<Rightarrow> bool" where
  "est_e c = (c = CHR ''e'' \<or> c = CHR ''E'')"

definition mantisse :: "string \<Rightarrow> real option" where
  "mantisse m =
     (let ip = takeWhile (\<lambda>c. c \<noteq> CHR ''.'') m; d = dropWhile (\<lambda>c. c \<noteq> CHR ''.'') m in
      case d of
        [] \<Rightarrow> map_option real_of_int (partie_chiffres ip)
      | p # fp \<Rightarrow>
          if fp = [] then map_option real_of_int (partie_chiffres ip)
          else
            (case partie_chiffres fp of
               None \<Rightarrow> None
             | Some f \<Rightarrow>
                 (let frac = real_of_int f / 10 ^ length (filter est_chiffre fp) in
                  if ip = [] then Some frac
                  else map_option (\<lambda>n. real_of_int n + frac) (partie_chiffres ip))))"

definition nombre_decimal :: "string \<Rightarrow> real option" where
  "nombre_decimal u =
     (let m = takeWhile (\<lambda>c. \<not> est_e c) u; x = dropWhile (\<lambda>c. \<not> est_e c) u in
      case mantisse m of
        None \<Rightarrow> None
      | Some r \<Rightarrow>
          (case x of
             [] \<Rightarrow> Some r
           | e # ex \<Rightarrow> map_option (\<lambda>k. r * 10 powi k) (entier_signe ex)))"

definition py_float :: "rounding \<Rightarrow> string \<Rightarrow> py_error + pyfloat" where
  "py_float rnd s =
     (let t = strip s;
          neg = (t \<noteq> [] \<and> hd t = CHR ''-'');
          u = (if t \<noteq> [] \<and> (hd t = CHR ''-'' \<or> hd t = CHR ''+'') then tl t else t);
          l = lower u
      in if l = ''nan'' then Inr NaN
         else if l = ''inf'' \<or> l = ''infinity'' then Inr (if neg then NegInf else PosInf)
         else
           (case nombre_decimal u of
              None \<Rightarrow> Inl ValueError
            | Some r \<Rightarrow> Inr (Finite (rnd (if neg then - r else r)))))"

text \<open>
  The format \<open>{v:.2f}\<close> of a float: the value rounded to two decimals (ties to even on
  the exact value), with a minus sign for a negative value.
\<close>

definition centiemes :: "real \<Rightarrow> nat" where
  "centiemes v = nat (round_half_even (\<bar>v\<bar> * 100))"

fun format_2f :: "pyfloat \<Rightarrow> string" where
  "format_2f (Finite v) =
     (if v < 0 then ''-'' else '''') @ str_nat (centiemes v div 100) @ ''.''
       @ [chiffre (centiemes v mod 100 div 10), chiffre (centiemes v mod 10)]"
| "format_2f NaN = ''nan''"
| "format_2f PosInf = ''inf''"
| "format_2f NegInf = ''-inf''"

declare format_2f.simps [simp del]

section \<open>The scalar file\<close>

text \<open>
  \<open>ecrire_val\<close>: the header line, then for each facet its line \<open>f<i> <nb_tri>\<close>
  and \<open>nb_tri\<close> value lines. \<open>k\<close> is the index of the next value of \<open>val_tri\<close>; a value
  that is not finite is written as \<open>0.0\<close>.
\<close>

fun ecrire_valeurs :: "pyfloat list \<Rightarrow> nat \<Rightarrow> nat \<Rightarrow> py_error + string list" where
  "ecrire_valeurs val_tri k 0 = Inr []"
| "ecrire_valeurs val_tri k (Suc n) =
     (case np_index val_tri (int k) of
        Inl e \<Rightarrow> Inl e
      | Inr v \<Rightarrow>
          (case ecrire_valeurs val_tri (k + 1) n of
             Inl e \<Rightarrow> Inl e
           | Inr ls \<Rightarrow>
               Inr (([CHR 0x09] @ format_2f (if \<not> isfinite v then Finite 0 else v) @ [CHR 0x0A]) # ls)))"

fun ecrire_facettes :: "pyfloat list \<Rightarrow> int \<Rightarrow> int list \<Rightarrow> nat \<Rightarrow> py_error + string list" where
  "ecrire_facettes val_tri i [] k = Inr []"
| "ecrire_facettes val_tri i (nb_tri # reste) k =
     (case ecrire_valeurs val_tri k (nat nb_tri) of
        Inl e \<Rightarrow> Inl e
      | Inr ls \<Rightarrow>
          (case ecrire_facettes val_tri (i + 1) reste (k + nat nb_tri) of
             Inl e \<Rightarrow> Inl e
           | Inr ls' \<Rightarrow>
               Inr ((''f'' @ str_int i @ '' '' @ str_int nb_tri @ [CHR 0x0A]) # ls @ ls')))"

text \<open>\<open>np.min\<close> and \<open>np.max\<close> of a non-empty array of finite values.\<close>

definition np_min :: "pyfloat list \<Rightarrow> pyfloat" where
  "np_min xs = fold (\<lambda>x m. if pf_less x m then x else m) (tl xs) (hd xs)"

definition np_max :: "pyfloat list \<Rightarrow> pyfloat" where
  "np_max xs = fold (\<lambda>x m. if pf_less m x then x else m) (tl xs) (hd xs)"

definition ecrire_val :: "int list \<Rightarrow> pyfloat list \<Rightarrow> py_error + string list" where
  "ecrire_val tailles_facettes val_tri =
     (let nb_facettes = int (length tailles_facettes);
          fini = filter isfinite val_tri;
          vmin = (if fini \<noteq> [] then np_min fini else Finite 0);
          vmax = (if fini \<noteq> [] then np_max fini else Finite 0)
      in case ecrire_facettes val_tri 1 tailles_facettes 0 of
           Inl e \<Rightarrow> Inl e
         | Inr ls \<Rightarrow>
             Inr ((str_int nb_facettes @ '' '' @ str_int nb_facettes @ [CHR 0x09] @ '' ''
                   @ format_2f vmin @ '' '' @ format_2f vmax @ [CHR 0x0A]) # ls))"

text \<open>
  \<open>lire_val\<close>. \<open>lignes\<close> are the stripped lines that are not empty; the first is skipped.
  The loop is in one of two states: between facets (\<open>n = 0\<close>), where a line that starts
  with \<open>f\<close> opens a facet of \<open>int(s.split()[1])\<close> values and any other line is skipped,
  or inside a facet with \<open>n\<close> values still to read, one per line.
\<close>

fun lire_lignes :: "rounding \<Rightarrow> nat \<Rightarrow> string list \<Rightarrow> py_error + pyfloat list" where
  "lire_lignes rnd 0 [] = Inr []"
| "lire_lignes rnd (Suc n) [] = Inl IndexError"
| "lire_lignes rnd 0 (s # reste) =
     (if startswith s ''f'' then
        (case np_index (split s) 1 of
           Inl e \<Rightarrow> Inl e
         | Inr w \<Rightarrow>
             (case py_int_str w of
                Inl e \<Rightarrow> Inl e
              | Inr nb \<Rightarrow> lire_lignes rnd (nat nb) reste))
      else lire_lignes rnd 0 reste)"
| "lire_lignes rnd (Suc n) (s # reste) =
     (case np_index (split (replace_tab s)) 0 of
        Inl e \<Rightarrow> Inl e
      | Inr w \<Rightarrow>
          (case py_float rnd w of
             Inl e \<Rightarrow> Inl e
           | Inr v \<Rightarrow>
               (case lire_lignes rnd n reste of
                  Inl e \<Rightarrow> Inl e
                | Inr valeurs \<Rightarrow> Inr (v # valeurs))))"

declare lire_lignes.simps [simp del]

definition lire_val :: "rounding \<Rightarrow> string list \<Rightarrow> py_error + pyfloat list" where
  "lire_val rnd fichier =
     (let lignes = filter (\<lambda>l. l \<noteq> []) (map strip fichier) in
      if lignes = [] then Inr [] else lire_lignes rnd 0 (tl lignes))"

text \<open>
  The claim's words for the value that is read back: the value to two decimals, and
  \<open>0.0\<close> for a value that is not finite.
\<close>

fun arrondi_2 :: "pyfloat \<Rightarrow> real" where
  "arrondi_2 (Finite v) = (if v < 0 then - (real (centiemes v) / 100) else real (centiemes v) / 100)"
| "arrondi_2 NaN = 0"
| "arrondi_2 PosInf = 0"
| "arrondi_2 NegInf = 0"

section \<open>Statements about the scalar file\<close>

text \<open>Words without white space.\<close>

definition sans_espace :: "string \<Rightarrow> bool" where
  "sans_espace w = (\<forall>c \<in> set w. \<not> isspace c)"

text \<open>A value line as \<open>ecrire_val\<close> writes it, and the value that \<open>lire_val\<close> reads from it.\<close>

definition ligne_valeur :: "pyfloat \<Rightarrow> string" where
  "ligne_valeur v = [CHR 0x09] @ format_2f (if \<not> isfinite v then Finite 0 else v) @ [CHR 0x0A]"

definition valeur_relue :: "rounding \<Rightarrow> pyfloat \<Rightarrow> pyfloat" where
  "valeur_relue rnd v = Finite (rnd (arrondi_2 v))"

section \<open>The raster file\<close>

text \<open>
  \<open>lire_mh_ascii\<close>. The loop over the lines of the file: a line that starts with one of
  the six header keys, while the header has fewer than six entries, stores
  \<open>entete[k.lower()] = float(v)\<close> for its first two words \<open>k\<close> and \<open>v\<close>; any other line
  that is not blank is a line of data.
\<close>

definition cles_entete :: "string list" where
  "cles_entete = [''ncols'', ''nrows'', ''xllcorner'', ''yllcorner'', ''cellsize'', ''nodata_value'']"

fun lire_lignes_mh ::
  "rounding \<Rightarrow> string list \<Rightarrow> (string \<times> pyfloat) list \<Rightarrow> string list
     \<Rightarrow> py_error + ((string \<times> pyfloat) list \<times> string list)" where
  "lire_lignes_mh rnd [] entete lignes_donnees = Inr (entete, lignes_donnees)"
| "lire_lignes_mh rnd (lig # f) entete lignes_donnees =
     (let s = strip lig in
      if s = [] then lire_lignes_mh rnd f entete lignes_donnees
      else if length entete < 6 \<and> list_ex (startswith (lower s)) cles_entete then
        (case split s of
           k # v # autres \<Rightarrow>
             (case py_float rnd v of
                Inl e \<Rightarrow> Inl e
              | Inr x \<Rightarrow> lire_lignes_mh rnd f (AList.update (lower k) x entete) lignes_donnees)
         | _ \<Rightarrow> Inl ValueError)
      else lire_lignes_mh rnd f entete (lignes_donnees @ [s]))"

text \<open>\<open>_valeurs_ascii\<close>: every word of every line of data, as a float.\<close>

fun floats_mots :: "rounding \<Rightarrow> string list \<Rightarrow> py_error + pyfloat list" where
  "floats_mots rnd [] = Inr []"
| "floats_mots rnd (x # xs) =
     (case py_float rnd x of
        Inl e \<Rightarrow> Inl e
      | Inr v \<Rightarrow> (case floats_mots rnd xs of Inl e \<Rightarrow> Inl e | Inr vs \<Rightarrow> Inr (v # vs)))"

fun valeurs_ascii :: "rounding \<Rightarrow> string list \<Rightarrow> py_error + pyfloat list" where
  "valeurs_ascii rnd [] = Inr []"
| "valeurs_ascii rnd (lig # lignes_donnees) =
     (case floats_mots rnd (split lig) of
        Inl e \<Rightarrow> Inl e
      | Inr vs \<Rightarrow>
          (case valeurs_ascii rnd lignes_donnees of
             Inl e \<Rightarrow> Inl e
           | Inr vals \<Rightarrow> Inr (vs @ vals)))"

text \<open>\<open>entete[k]\<close> raises KeyError for a missing key; \<open>int()\<close> of a float truncates.\<close>

definition entete_cle :: "(string \<times> pyfloat) list \<Rightarrow> string \<Rightarrow> py_error + pyfloat" where
  "entete_cle entete k = (case map_of entete k of None \<Rightarrow> Inl KeyError | Some v \<Rightarrow> Inr v)"

fun py_int_float :: "pyfloat \<Rightarrow> py_error + int" where
  "py_int_float (Finite x) = Inr (py_int x)"
| "py_int_float NaN = Inl ValueError"
| "py_int_float PosInf = Inl OverflowError"
| "py_int_float NegInf = Inl OverflowError"

text \<open>
  \<open>np.array(vals).reshape((nb_lignes, nb_colonnes))\<close>: the values row by row. One
  dimension may be -1 and is then inferred from the other.
\<close>

definition lignes_raster :: "pyfloat list \<Rightarrow> nat \<Rightarrow> nat \<Rightarrow> raster" where
  "lignes_raster vals r c = map (\<lambda>i. take c (drop (i * c) vals)) [0..<r]"

definition reshape :: "pyfloat list \<Rightarrow> int \<Rightarrow> int \<Rightarrow> py_error + raster" where
  "reshape vals nb_lignes nb_colonnes =
     (let n = int (length vals) in
      if nb_lignes = - 1 \<and> nb_colonnes = - 1 then Inl ValueError
      else if nb_lignes = - 1 then
        (if 0 < nb_colonnes \<and> n mod nb_colonnes = 0
         then Inr (lignes_raster vals (nat (n div nb_colonnes)) (nat nb_colonnes))
         else Inl ValueError)
      else if nb_colonnes = - 1 then
        (if 0 < nb_lignes \<and> n mod nb_lignes = 0
         then Inr (lignes_raster vals (nat nb_lignes) (nat (n div nb_lignes)))
         else Inl ValueError)
      else if nb_lignes < 0 \<or> nb_colonnes < 0 then Inl ValueError
      else if nb_lignes * nb_colonnes = n
        then Inr (lignes_raster vals (nat nb_lignes) (nat nb_colonnes))
      else Inl ValueError)"

fun pf_neg :: "pyfloat \<Rightarrow> pyfloat" where
  "pf_neg (Finite x) = Finite (- x)"
| "pf_neg PosInf = NegInf"
| "pf_neg NegInf = PosInf"
| "pf_neg NaN = NaN"

definition NODATA_MH :: pyfloat where
  "NODATA_MH = Finite 9999"

text \<open>
  Everything that \<open>lire_mh_ascii\<close> does before it replaces the nodata values: the raster
  as the file gives it, the geotransform, and \<open>nodata_fichier\<close>, the NODATA value that the
  file declares (\<open>NODATA_MH\<close> when it declares none).
\<close>

definition lecture_mh ::
  "rounding \<Rightarrow> string list
     \<Rightarrow> py_error + (raster \<times> (pyfloat \<times> pyfloat \<times> pyfloat \<times> pyfloat \<times> pyfloat \<times> pyfloat) \<times> pyfloat)" where
  "lecture_mh rnd fichier =
     (case lire_lignes_mh rnd fichier [] [] of
        Inl e \<Rightarrow> Inl e
      | Inr (entete, lignes_donnees) \<Rightarrow>
     (case entete_cle entete ''ncols'' of Inl e \<Rightarrow> Inl e | Inr fc \<Rightarrow>
     (case py_int_float fc of Inl e \<Rightarrow> Inl e | Inr nb_colonnes \<Rightarrow>
     (case entete_cle entete ''nrows'' of Inl e \<Rightarrow> Inl e | Inr fl \<Rightarrow>
     (case py_int_float fl of Inl e \<Rightarrow> Inl e | Inr nb_lignes \<Rightarrow>
     (case entete_cle entete ''xllcorner'' of Inl e \<Rightarrow> Inl e | Inr xll \<Rightarrow>
     (case entete_cle entete ''yllcorner'' of Inl e \<Rightarrow> Inl e | Inr yll \<Rightarrow>
     (case entete_cle entete ''cellsize'' of Inl e \<Rightarrow> Inl e | Inr pas \<Rightarrow>
       (let nodata_fichier = (case map_of entete ''nodata_value'' of None \<Rightarrow> NODATA_MH | Some v \<Rightarrow> v);
            y_max = pf_add rnd yll (pf_mul rnd (Finite (of_int nb_lignes)) pas);
            gt = (xll, pas, Finite 0, y_max, Finite 0, pf_neg pas)
        in case valeurs_ascii rnd lignes_donnees of
             Inl e \<Rightarrow> Inl e
           | Inr vals \<Rightarrow>
               (case reshape vals nb_lignes nb_colonnes of
                  Inl e \<Rightarrow> Inl e
                | Inr ras \<Rightarrow> Inr (ras, gt, nodata_fichier)))))))))))"

text \<open>\<open>ras[ras == v] = np.nan\<close>\<close>

definition masque_nan :: "pyfloat \<Rightarrow> raster \<Rightarrow> raster" where
  "masque_nan v ras = map (map (\<lambda>x. if pf_eq x v then NaN else x)) ras"

definition lire_mh_ascii ::
  "rounding \<Rightarrow> string list
     \<Rightarrow> py_error + (raster \<times> (pyfloat \<times> pyfloat \<times> pyfloat \<times> pyfloat \<times> pyfloat \<times> pyfloat) \<times> pyfloat)" where
  "lire_mh_ascii rnd fichier =
     (case lecture_mh rnd fichier of
        Inl e \<Rightarrow> Inl e
      | Inr (ras, gt, nodata_fichier) \<Rightarrow>
          (let nodata = NODATA_MH in
           Inr (masque_nan nodata (masque_nan nodata_fichier ras), gt, nodata)))"

section \<open>Properties of the mapping inversion\<close>

lemma map_of_dd_append:
  "map_of (dd_append k e d) t =
     (if t = k then Some ((case map_of d k of None \<Rightarrow> [] | Some l \<Rightarrow> l) @ [e]) else map_of d t)"
  by (simp add: dd_append_def update_conv')

lemma map_of_dd_backfill:
  "map_of (dd_backfill k d) t =
     (if t = k then Some (case map_of d k of None \<Rightarrow> [] | Some l \<Rightarrow> l) else map_of d t)"
  by (simp add: dd_backfill_def update_conv')

lemma fold_dd_append:
  "map_of (fold (\<lambda>(id_tri, aire). dd_append id_tri (lig, col, aire)) lst d) t =
     (if filter (\<lambda>(id_tri, aire). id_tri = t) lst = [] then map_of d t
      else Some ((case map_of d t of None \<Rightarrow> [] | Some l \<Rightarrow> l)
                 @ map (\<lambda>(id_tri, aire). (lig, col, aire)) (filter (\<lambda>(id_tri, aire). id_tri = t) lst)))"
proof (induction lst arbitrary: d)
  case Nil
  then show ?case by simp
next
  case (Cons p lst)
  obtain i a where p: "p = (i, a)" by (cases p)
  show ?case
    by (simp add: p Cons.IH map_of_dd_append split: option.splits)
qed

lemma map_of_inverser_pixel:
  "map_of (inverser_pixel item d) t =
     (if occurrences_pixel t item = [] then map_of d t
      else Some ((case map_of d t of None \<Rightarrow> [] | Some l \<Rightarrow> l) @ occurrences_pixel t item))"
proof -
  obtain lig col lst where item: "item = ((lig, col), lst)" by (metis prod.exhaust)
  show ?thesis
    by (simp add: item inverser_pixel_def occurrences_pixel_def fold_dd_append)
qed

lemma map_of_fold_inverser_pixel:
  "map_of (fold inverser_pixel map_px d) t =
     (if occurrences t map_px = [] then map_of d t
      else Some ((case map_of d t of None \<Rightarrow> [] | Some l \<Rightarrow> l) @ occurrences t map_px))"
proof (induction map_px arbitrary: d)
  case Nil
  then show ?case by (simp add: occurrences_def)
next
  case (Cons item map_px)
  have occ: "occurrences t (item # map_px) = occurrences_pixel t item @ occurrences t map_px"
    by (simp add: occurrences_def)
  show ?case
    by (simp add: occ Cons.IH map_of_inverser_pixel split: option.splits)
qed

lemma map_of_fold_dd_backfill:
  "map_of (fold dd_backfill ks d) t =
     (if t \<in> set ks then Some (case map_of d t of None \<Rightarrow> [] | Some l \<Rightarrow> l) else map_of d t)"
  by (induction ks arbitrary: d) (auto simp: map_of_dd_backfill split: option.splits)

lemma map_of_inverser_mapping:
  "map_of (inverser_mapping map_px n) t =
     (if (0 \<le> t \<and> t < n) \<or> occurrences t map_px \<noteq> [] then Some (occurrences t map_px) else None)"
  by (auto simp: inverser_mapping_def map_of_fold_dd_backfill map_of_fold_inverser_pixel)

lemma occurrences_Nil_iff: "occurrences t map_px = [] \<longleftrightarrow> t \<notin> triangle_ids map_px"
  by (force simp: occurrences_def triangle_ids_def occurrences_pixel_def filter_empty_conv image_iff
      split: prod.splits)

lemma distinct_dd_append: "distinct (map fst d) \<Longrightarrow> distinct (map fst (dd_append k e d))"
  by (simp add: dd_append_def distinct_update)

lemma distinct_dd_backfill: "distinct (map fst d) \<Longrightarrow> distinct (map fst (dd_backfill k d))"
  by (simp add: dd_backfill_def distinct_update)

text \<open>The result is a dict: no key occurs twice.\<close>

lemma distinct_inverser_mapping: "distinct (map fst (inverser_mapping map_px n))"
proof -
  have a: "distinct (map fst d) \<Longrightarrow>
      distinct (map fst (fold (\<lambda>(id_tri, aire). dd_append id_tri (lig, col, aire)) lst d))"
    for lig col lst and d :: tri_px
    by (induction lst arbitrary: d) (auto simp: distinct_dd_append)
  have b: "distinct (map fst d) \<Longrightarrow> distinct (map fst (fold inverser_pixel m d))"
    for m and d :: tri_px
    by (induction m arbitrary: d) (auto simp: inverser_pixel_def a)
  have c: "distinct (map fst d) \<Longrightarrow> distinct (map fst (fold dd_backfill ks d))"
    for ks and d :: tri_px
    by (induction ks arbitrary: d) (auto simp: distinct_dd_backfill)
  show ?thesis unfolding inverser_mapping_def by (rule c, rule b) simp
qed

text \<open>
  Claim C3. Mapping inversion is total over the declared triangle ids: for every
  pixel-to-triangles map and every triangle count, every id \<open>t\<close> with
  \<open>0 \<le> t < nb_triangles\<close> is a key of the result of \<open>inverser_mapping\<close>; its list is,
  entry for entry and in order, the list of the occurrences of \<open>(t, aire)\<close> under the keys
  \<open>(ligne, colonne)\<close> of the forward map, and it is the empty list (the key is not
  omitted) when \<open>t\<close> occurs in no forward list.
\<close>

theorem inverser_mapping_total:
  assumes "0 \<le> t" and "t < nb_triangles"
  shows "map_of (inverser_mapping map_px nb_triangles) t = Some (occurrences t map_px)
       \<and> (t \<notin> triangle_ids map_px \<longrightarrow> map_of (inverser_mapping map_px nb_triangles) t = Some [])"
  using assms by (simp add: map_of_inverser_mapping occurrences_Nil_iff [symmetric])

theorem inverser_mapping_total_witness:
  "map_of (inverser_mapping
       [((0, 0), [(1, Finite 2), (0, Finite 1)]), ((0, 1), [(1, Finite 3)])] 3) 1
     = Some [(0, 0, Finite 2), (0, 1, Finite 3)]
   \<and> map_of (inverser_mapping
       [((0, 0), [(1, Finite 2), (0, Finite 1)]), ((0, 1), [(1, Finite 3)])] 3) 2
     = Some []"
  using inverser_mapping_total [of 1 3 "[((0, 0), [(1, Finite 2), (0, Finite 1)]), ((0, 1), [(1, Finite 3)])]"]
    inverser_mapping_total [of 2 3 "[((0, 0), [(1, Finite 2), (0, Finite 1)]), ((0, 1), [(1, Finite 3)])]"]
  by (simp add: occurrences_def occurrences_pixel_def triangle_ids_def)

section \<open>Properties of the cell-to-triangle aggregation\<close>

lemma np_index_in_range: "0 \<le> i \<Longrightarrow> i < int (length xs) \<Longrightarrow> np_index xs i = Inr (xs ! nat i)"
  by (simp add: np_index_def)

lemma np_store_in_range: "0 \<le> i \<Longrightarrow> i < int (length xs) \<Longrightarrow> np_store xs i v = Inr (xs[nat i := v])"
  by (simp add: np_store_def)

lemma np_index2_in_range:
  "0 \<le> lig \<Longrightarrow> lig < int (length ras) \<Longrightarrow> 0 \<le> col \<Longrightarrow> col < int (length (ras ! nat lig))
     \<Longrightarrow> np_index2 ras lig col = Inr (ras ! nat lig ! nat col)"
  by (simp add: np_index2_def np_index_in_range)

lemma filtre_pixels_eq:
  "pixels_dans_raster ras pixels \<Longrightarrow>
     filtre_pixels ras pixels vals poids =
       Inr (vals @ map fst (paires_retenues ras pixels), poids @ map snd (paires_retenues ras pixels))"
proof (induction pixels arbitrary: vals poids)
  case Nil
  then show ?case by (simp add: paires_retenues_def)
next
  case (Cons p pixels)
  obtain lig col aire where p: "p = (lig, col, aire)" by (cases p)
  from Cons.prems have tl: "pixels_dans_raster ras pixels"
    and hd: "0 \<le> lig" "lig < int (length ras)" "0 \<le> col" "col < int (length (ras ! nat lig))"
    by (auto simp: pixels_dans_raster_def p)
  show ?case
    using Cons.IH [OF tl]
    by (simp add: p np_index2_in_range [OF hd] paires_retenues_def)
qed

lemma map2_fst_snd: "map2 f (map fst ps) (map snd ps) = map (\<lambda>(v, a). f v a) ps"
  by (induction ps) auto

lemma valeur_triangle_eq:
  assumes "pixels_dans_raster ras pixels"
  shows "valeur_triangle rnd ras pixels pondere =
     Inr (let paires = paires_retenues ras pixels in
          if paires = [] then None
          else if pondere then
            (if pf_less (Finite 0) (np_sum rnd (map snd paires))
             then Some (pf_div rnd (np_sum rnd (map (\<lambda>(v, aire). pf_mul rnd v aire) paires))
                          (np_sum rnd (map snd paires)))
             else None)
          else Some (np_mean rnd (map fst paires)))"
proof (cases "pixels = []")
  case True
  then show ?thesis by (simp add: valeur_triangle_def paires_retenues_def)
next
  case False
  then show ?thesis
    by (simp add: valeur_triangle_def filtre_pixels_eq [OF assms] map2_fst_snd Let_def)
qed

lemma valeur_triangle_attendue:
  assumes "pixels_dans_raster ras pixels"
  shows "(case valeur_triangle rnd ras pixels pondere of
            Inl e \<Rightarrow> False
          | Inr None \<Rightarrow> moyenne_attendue rnd pondere rempl (paires_retenues ras pixels) = rempl
          | Inr (Some v) \<Rightarrow> moyenne_attendue rnd pondere rempl (paires_retenues ras pixels) = v)"
  by (simp add: valeur_triangle_eq [OF assms] moyenne_attendue_def Let_def)

lemma boucle_triangles_inv:
  assumes "distinct (map fst items)"
    and "\<forall>k \<in> set (map fst items). 0 \<le> k \<and> k < int (length val_tri)"
    and "\<forall>(t, pixels) \<in> set items. pixels_dans_raster ras pixels"
    and "\<forall>k \<in> set (map fst items). val_tri ! nat k = rempl"
  shows "\<exists>res. boucle_triangles rnd ras pondere items val_tri = Inr res
            \<and> length res = length val_tri
            \<and> (\<forall>(t, pixels) \<in> set items.
                  res ! nat t = moyenne_attendue rnd pondere rempl (paires_retenues ras pixels))
            \<and> (\<forall>k. 0 \<le> k \<longrightarrow> k \<notin> set (map fst items) \<longrightarrow> res ! nat k = val_tri ! nat k)"
  using assms
proof (induction items arbitrary: val_tri)
  case Nil
  then show ?case by simp
next
  case (Cons item items)
  obtain t pixels where item: "item = (t, pixels)" by (cases item)
  from Cons.prems have t: "0 \<le> t" "t < int (length val_tri)" "t \<notin> set (map fst items)"
    and px: "pixels_dans_raster ras pixels"
    and d: "distinct (map fst items)"
    and r: "\<forall>(t, pixels) \<in> set items. pixels_dans_raster ras pixels"
    and k: "\<forall>k \<in> set (map fst items). 0 \<le> k \<and> k < int (length val_tri)"
    and v0: "val_tri ! nat t = rempl" "\<forall>k \<in> set (map fst items). val_tri ! nat k = rempl"
    by (auto simp: item)
  note att = valeur_triangle_attendue [OF px, of rnd pondere rempl]
  show ?case
  proof (cases "valeur_triangle rnd ras pixels pondere")
    case (Inl e)
    with att show ?thesis by simp
  next
    case (Inr ov)
    show ?thesis
    proof (cases ov)
      case None
      with Inr att have e: "moyenne_attendue rnd pondere rempl (paires_retenues ras pixels) = rempl"
        by simp
      from Cons.IH [OF d k r v0(2)] obtain res where
        res: "boucle_triangles rnd ras pondere items val_tri = Inr res"
          "length res = length val_tri"
          "\<forall>(t, pixels) \<in> set items. res ! nat t = moyenne_attendue rnd pondere rempl (paires_retenues ras pixels)"
          "\<forall>k. 0 \<le> k \<longrightarrow> k \<notin> set (map fst items) \<longrightarrow> res ! nat k = val_tri ! nat k"
        by blast
      have "res ! nat t = rempl" using res(4) t v0(1) by simp
      then show ?thesis
        using res e by (simp add: item Inr None)
    next
      case (Some v)
      with Inr att have e: "moyenne_attendue rnd pondere rempl (paires_retenues ras pixels) = v"
        by simp
      let ?vt = "val_tri[nat t := v]"
      have st: "np_store val_tri t v = Inr ?vt" by (rule np_store_in_range [OF t(1,2)])
      have k': "\<forall>k \<in> set (map fst items). 0 \<le> k \<and> k < int (length ?vt)" using k by simp
      have v': "\<forall>k \<in> set (map fst items). ?vt ! nat k = rempl"
      proof
        fix k assume kk: "k \<in> set (map fst items)"
        then have "k \<noteq> t" using t(3) by auto
        moreover have "0 \<le> k" using k kk by blast
        ultimately have "nat k \<noteq> nat t" using t(1) by simp
        moreover have "val_tri ! nat k = rempl" using v0(2) kk by blast
        ultimately show "?vt ! nat k = rempl" by simp
      qed
      from Cons.IH [OF d k' r v'] obtain res where
        res: "boucle_triangles rnd ras pondere items ?vt = Inr res"
          "length res = length ?vt"
          "\<forall>(t, pixels) \<in> set items. res ! nat t = moyenne_attendue rnd pondere rempl (paires_retenues ras pixels)"
          "\<forall>k. 0 \<le> k \<longrightarrow> k \<notin> set (map fst items) \<longrightarrow> res ! nat k = ?vt ! nat k"
        by blast
      have "res ! nat t = v" using res(4) t by simp
      moreover have "\<forall>k. 0 \<le> k \<longrightarrow> k \<notin> set (map fst (item # items)) \<longrightarrow> res ! nat k = val_tri ! nat k"
        using res(4) t(1) by (auto simp: item)
      ultimately show ?thesis
        using res e st by (simp add: item Inr Some)
    qed
  qed
qed


lemma moyenne_pixels_par_triangle_attendue:
  assumes "cles_valides tri_px"
    and "\<forall>(t, pixels) \<in> set tri_px. pixels_dans_raster ras pixels"
  shows "\<exists>val_tri. moyenne_pixels_par_triangle rnd ras tri_px pondere rempl = Inr val_tri
            \<and> length val_tri = length tri_px
            \<and> (\<forall>(t, pixels) \<in> set tri_px.
                  val_tri ! nat t = moyenne_attendue rnd pondere rempl (paires_retenues ras pixels))"
proof -
  have d: "distinct (map fst tri_px)"
    and k: "\<forall>k \<in> set (map fst tri_px). 0 \<le> k \<and> k < int (length (replicate (length tri_px) rempl))"
    using assms(1) by (simp_all add: cles_valides_def)
  have v: "\<forall>k \<in> set (map fst tri_px). replicate (length tri_px) rempl ! nat k = rempl"
    using k by auto
  from boucle_triangles_inv [OF d k assms(2) v, of rnd pondere]
  show ?thesis by (auto simp: moyenne_pixels_par_triangle_def)
qed

text \<open>
  Claim C1. Cell-to-triangle aggregation: on a triangle-to-pixels map whose keys are the
  positions \<open>0 .. n-1\<close> and whose pixels are cells of the raster,
  \<open>moyenne_pixels_par_triangle\<close> returns an array with, for every triangle id of the
  map, the value of its pairs (cell value, area) once the pairs with a non-finite cell
  value are discarded: in weighted mode \<open>\<Sum>(value * area) / \<Sum>area\<close>, assigned only when
  \<open>\<Sum>area > 0\<close>; in unweighted mode the arithmetic mean of the remaining values. When no
  pair remains, or in weighted mode when the weights do not sum to a positive number, the
  result is the no-value marker \<open>rempl\<close> (\<open>np.nan\<close> by default and in the call of
  \<open>mh_vers_sm_val\<close>): neither zero nor the unweighted mean.
\<close>

theorem moyenne_pixels_par_triangle_correct:
  assumes "cles_valides tri_px"
    and "\<forall>(t, pixels) \<in> set tri_px. pixels_dans_raster ras pixels"
  shows "\<exists>val_tri. moyenne_pixels_par_triangle rnd ras tri_px pondere rempl = Inr val_tri
            \<and> length val_tri = length tri_px
            \<and> (\<forall>(t, pixels) \<in> set tri_px.
                  val_tri ! nat t = moyenne_attendue rnd pondere rempl (paires_retenues ras pixels)
                \<and> ((paires_retenues ras pixels = []
                      \<or> (pondere \<and> \<not> pf_less (Finite 0) (np_sum rnd (map snd (paires_retenues ras pixels)))))
                     \<longrightarrow> val_tri ! nat t = rempl))"
proof -
  from moyenne_pixels_par_triangle_attendue [OF assms, of rnd pondere rempl]
  obtain val_tri where v: "moyenne_pixels_par_triangle rnd ras tri_px pondere rempl = Inr val_tri"
      "length val_tri = length tri_px"
      "\<forall>(t, pixels) \<in> set tri_px.
          val_tri ! nat t = moyenne_attendue rnd pondere rempl (paires_retenues ras pixels)"
    by blast
  have "\<forall>(t, pixels) \<in> set tri_px.
          val_tri ! nat t = moyenne_attendue rnd pondere rempl (paires_retenues ras pixels)
        \<and> ((paires_retenues ras pixels = []
              \<or> (pondere \<and> \<not> pf_less (Finite 0) (np_sum rnd (map snd (paires_retenues ras pixels)))))
             \<longrightarrow> val_tri ! nat t = rempl)"
    using v(3) by (auto simp: moyenne_attendue_def)
  with v(1,2) show ?thesis by blast
qed

theorem moyenne_pixels_par_triangle_correct_witness:
  "cles_valides [(0, [(0, 0, Finite 1), (0, 1, Finite 1), (1, 0, Finite 3)]), (1, []), (2, [(0, 1, Finite 2)])]
   \<and> (\<exists>val_tri.
        moyenne_pixels_par_triangle exact [[Finite 1, NaN], [Finite 3, Finite 5]]
          [(0, [(0, 0, Finite 1), (0, 1, Finite 1), (1, 0, Finite 3)]), (1, []), (2, [(0, 1, Finite 2)])]
          True NaN = Inr val_tri
        \<and> length val_tri = 3
        \<and> val_tri ! 0 = Finite (5 / 2) \<and> val_tri ! 1 = NaN \<and> val_tri ! 2 = NaN)
   \<and> (\<exists>val_tri.
        moyenne_pixels_par_triangle exact [[Finite 1, NaN], [Finite 3, Finite 5]]
          [(0, [(0, 0, Finite 1), (0, 1, Finite 1), (1, 0, Finite 3)]), (1, []), (2, [(0, 1, Finite 2)])]
          False NaN = Inr val_tri
        \<and> length val_tri = 3
        \<and> val_tri ! 0 = Finite 2 \<and> val_tri ! 1 = NaN \<and> val_tri ! 2 = NaN)"
proof -
  let ?ras = "[[Finite 1, NaN], [Finite 3, Finite 5]]"
  let ?tri_px = "[(0, [(0, 0, Finite 1), (0, 1, Finite 1), (1, 0, Finite 3)]), (1, []), (2, [(0, 1, Finite 2)])]
                   :: tri_px"
  have c: "cles_valides ?tri_px" by (simp add: cles_valides_def)
  have p: "\<forall>(t, pixels) \<in> set ?tri_px. pixels_dans_raster ?ras pixels"
    by (simp add: pixels_dans_raster_def)
  from moyenne_pixels_par_triangle_correct [OF c p, of exact True NaN]
    moyenne_pixels_par_triangle_correct [OF c p, of exact False NaN]
  show ?thesis
    using c
    by (simp add: moyenne_attendue_def paires_retenues_def exact_def np_mean_def numeral_3_eq_3)
qed

section \<open>Weighted aggregation of a constant field\<close>

lemma foldl_pf_add_exact:
  "foldl (pf_add exact) (Finite a) (map Finite xs) = Finite (a + sum_list xs)"
  by (induction xs arbitrary: a) (simp_all add: exact_def add.assoc)

lemma np_sum_exact: "np_sum exact (map Finite xs) = Finite (sum_list xs)"
  by (cases xs) (simp_all add: foldl_pf_add_exact)

lemma sum_list_pos_real: "xs \<noteq> [] \<Longrightarrow> \<forall>x \<in> set xs. (0::real) < x \<Longrightarrow> 0 < sum_list xs"
  by (induction xs) (auto intro: add_pos_nonneg sum_list_nonneg less_imp_le)

lemma paires_constantes:
  assumes "pixels_dans_raster ras pixels" and "aires_positives pixels" and "champ_constant ras C"
  shows "\<exists>as. paires_retenues ras pixels = map (\<lambda>a. (Finite C, Finite a)) as \<and> (\<forall>a \<in> set as. 0 < a)"
  using assms
proof (induction pixels)
  case Nil
  then show ?case by (simp add: paires_retenues_def)
next
  case (Cons p pixels)
  obtain lig col aire where p: "p = (lig, col, aire)" by (cases p)
  from Cons.prems obtain a where a: "aire = Finite a" "0 < a"
    by (auto simp: aires_positives_def p)
  from Cons.prems have tl: "pixels_dans_raster ras pixels" "aires_positives pixels"
    by (auto simp: pixels_dans_raster_def aires_positives_def)
  from Cons.IH [OF tl Cons.prems(3)] obtain as where
    as: "paires_retenues ras pixels = map (\<lambda>a. (Finite C, Finite a)) as" "\<forall>a \<in> set as. 0 < a"
    by blast
  from Cons.prems(1) have r: "0 \<le> lig" "lig < int (length ras)" "0 \<le> col" "col < int (length (ras ! nat lig))"
    by (auto simp: pixels_dans_raster_def p)
  then have "ras ! nat lig \<in> set ras" "ras ! nat lig ! nat col \<in> set (ras ! nat lig)"
    by (simp_all add: nat_less_iff)
  with Cons.prems(3) have c: "isfinite (ras ! nat lig ! nat col) \<Longrightarrow> ras ! nat lig ! nat col = Finite C"
    by (auto simp: champ_constant_def)
  show ?case
  proof (cases "isfinite (ras ! nat lig ! nat col)")
    case True
    with c as a have "paires_retenues ras (p # pixels) = map (\<lambda>a. (Finite C, Finite a)) (a # as)"
      by (simp add: paires_retenues_def p)
    moreover have "\<forall>x \<in> set (a # as). 0 < x" using as(2) a(2) by simp
    ultimately show ?thesis by blast
  next
    case False
    with as have "paires_retenues ras (p # pixels) = map (\<lambda>a. (Finite C, Finite a)) as"
      by (simp add: paires_retenues_def p)
    with as(2) show ?thesis by blast
  qed
qed

lemma moyenne_attendue_constante:
  assumes "\<forall>a \<in> set as. 0 < a"
  shows "moyenne_attendue exact True NaN (map (\<lambda>a. (Finite C, Finite a)) as)
           = (if as = [] then NaN else Finite C)"
proof (cases "as = []")
  case True
  then show ?thesis by (simp add: moyenne_attendue_def)
next
  case False
  have s: "map snd (map (\<lambda>a. (Finite C, Finite a)) as) = map Finite as"
    by (simp add: comp_def)
  have m: "map (\<lambda>(v, aire). pf_mul exact v aire) (map (\<lambda>a. (Finite C, Finite a)) as)
             = map Finite (map (\<lambda>a. C * a) as)"
    by (simp add: comp_def exact_def)
  have pos: "0 < sum_list as" using False assms by (rule sum_list_pos_real)
  have sm: "sum_list (map (\<lambda>a. C * a) as) = C * sum_list as"
    by (simp add: sum_list_const_mult)
  show ?thesis
    using False pos
    by (simp add: moyenne_attendue_def s m np_sum_exact sm exact_def del: map_map)
qed

lemma paires_retenues_Nil_iff:
  "paires_retenues ras pixels = [] \<longleftrightarrow>
     \<not> (\<exists>(lig, col, aire) \<in> set pixels. isfinite (ras ! nat lig ! nat col))"
  by (auto simp: paires_retenues_def filter_empty_conv)

text \<open>
  Claim C7, as amended. For every triangle-to-pixels correspondence with positive finite
  areas and every raster whose finite cells all hold the same constant \<open>C\<close>, the
  area-weighted aggregation computed without rounding (\<open>exact\<close>) yields exactly \<open>C\<close>
  for every triangle that has at least one overlapping cell with a finite value, and the
  NaN marker for every triangle that has none.
\<close>

theorem moyenne_ponderee_champ_constant:
  assumes "cles_valides tri_px"
    and "\<forall>(t, pixels) \<in> set tri_px. pixels_dans_raster ras pixels \<and> aires_positives pixels"
    and "champ_constant ras C"
  shows "\<exists>val_tri. moyenne_pixels_par_triangle exact ras tri_px True NaN = Inr val_tri
            \<and> length val_tri = length tri_px
            \<and> (\<forall>(t, pixels) \<in> set tri_px.
                  val_tri ! nat t =
                    (if \<exists>(lig, col, aire) \<in> set pixels. isfinite (ras ! nat lig ! nat col)
                     then Finite C else NaN))"
proof -
  have p: "\<forall>(t, pixels) \<in> set tri_px. pixels_dans_raster ras pixels"
    using assms(2) by auto
  from moyenne_pixels_par_triangle_attendue [OF assms(1) p, of exact True NaN]
  obtain val_tri where v: "moyenne_pixels_par_triangle exact ras tri_px True NaN = Inr val_tri"
      "length val_tri = length tri_px"
      "\<forall>(t, pixels) \<in> set tri_px.
          val_tri ! nat t = moyenne_attendue exact True NaN (paires_retenues ras pixels)"
    by blast
  have "\<forall>(t, pixels) \<in> set tri_px.
          val_tri ! nat t =
            (if \<exists>(lig, col, aire) \<in> set pixels. isfinite (ras ! nat lig ! nat col)
             then Finite C else NaN)"
  proof (clarify)
    fix t pixels assume tp: "(t, pixels) \<in> set tri_px"
    with assms(2) have h: "pixels_dans_raster ras pixels" "aires_positives pixels" by auto
    from paires_constantes [OF h assms(3)] obtain as where
      as: "paires_retenues ras pixels = map (\<lambda>a. (Finite C, Finite a)) as" "\<forall>a \<in> set as. 0 < a"
      by blast
    have e: "as = [] \<longleftrightarrow> \<not> (\<exists>(lig, col, aire) \<in> set pixels. isfinite (ras ! nat lig ! nat col))"
      using paires_retenues_Nil_iff [of ras pixels] as(1) by simp
    have "val_tri ! nat t = moyenne_attendue exact True NaN (paires_retenues ras pixels)"
      using v(3) tp by blast
    also have "\<dots> = (if as = [] then NaN else Finite C)"
      by (simp only: as(1) moyenne_attendue_constante [OF as(2)])
    finally show "val_tri ! nat t =
            (if \<exists>(lig, col, aire) \<in> set pixels. isfinite (ras ! nat lig ! nat col)
             then Finite C else NaN)"
      using e by auto
  qed
  with v(1,2) show ?thesis by blast
qed


theorem moyenne_ponderee_champ_constant_witness:
  "cles_valides [(0, [(0, 0, Finite 1), (0, 1, Finite 2), (1, 0, Finite 3)]), (1, [(0, 1, Finite 2)]), (2, [])]
   \<and> champ_constant [[Finite 7, NaN], [Finite 7, Finite 7]] 7
   \<and> (\<exists>val_tri.
        moyenne_pixels_par_triangle exact [[Finite 7, NaN], [Finite 7, Finite 7]]
          [(0, [(0, 0, Finite 1), (0, 1, Finite 2), (1, 0, Finite 3)]), (1, [(0, 1, Finite 2)]), (2, [])]
          True NaN = Inr val_tri
        \<and> val_tri ! 0 = Finite 7 \<and> val_tri ! 1 = NaN \<and> val_tri ! 2 = NaN)"
proof -
  let ?ras = "[[Finite 7, NaN], [Finite 7, Finite 7]]"
  let ?tri_px = "[(0, [(0, 0, Finite 1), (0, 1, Finite 2), (1, 0, Finite 3)]), (1, [(0, 1, Finite 2)]), (2, [])]
                   :: tri_px"
  have c: "cles_valides ?tri_px" by (simp add: cles_valides_def)
  have p: "\<forall>(t, pixels) \<in> set ?tri_px. pixels_dans_raster ?ras pixels \<and> aires_positives pixels"
    by (simp add: pixels_dans_raster_def aires_positives_def)
  have k: "champ_constant ?ras 7" by (simp add: champ_constant_def)
  from moyenne_ponderee_champ_constant [OF c p k]
  show ?thesis
    using c k by auto
qed

text \<open>
  With IEEE doubles the weighted mean of a constant field is not always the constant:
  for \<open>C = 0.1\<close> (the double \<open>3602879701896397 / 2 ^ 55\<close>) and one cell of area
  \<open>3.0\<close>, the product rounds to \<open>0.30000000000000004\<close> and the quotient to
  \<open>0.10000000000000002\<close>.
\<close>

theorem moyenne_ponderee_binary64_counterexample:
  "binary64 (3602879701896397 / 36028797018963968) = 3602879701896397 / 36028797018963968
   \<and> champ_constant [[Finite (3602879701896397 / 36028797018963968)]] (3602879701896397 / 36028797018963968)
   \<and> moyenne_pixels_par_triangle binary64 [[Finite (3602879701896397 / 36028797018963968)]]
        [(0, [(0, 0, Finite 3)])] True NaN
      = Inr [Finite (7205759403792795 / 72057594037927936)]
   \<and> (7205759403792795 / 72057594037927936 :: real) \<noteq> 3602879701896397 / 36028797018963968"
proof -
  have b0: "binary64 (3602879701896397 / 36028797018963968) = 3602879701896397 / 36028797018963968"
    by (simp add: binary64_def exposant_def eval_nat_numeral round_half_even_def Let_def power_int_def)
  have b1: "binary64 (10808639105689191 / 36028797018963968) = 1351079888211149 / 4503599627370496"
    by (simp add: binary64_def exposant_def eval_nat_numeral round_half_even_def Let_def power_int_def)
  have b2: "binary64 (binary64 (10808639105689191 / 36028797018963968) / 3)
              = 7205759403792795 / 72057594037927936"
    unfolding b1
    by (simp add: binary64_def exposant_def eval_nat_numeral round_half_even_def Let_def power_int_def)
  have m: "moyenne_pixels_par_triangle binary64 [[Finite (3602879701896397 / 36028797018963968)]]
        [(0, [(0, 0, Finite 3)])] True NaN
      = Inr [Finite (7205759403792795 / 72057594037927936)]"
    by (simp add: moyenne_pixels_par_triangle_def valeur_triangle_def np_index2_def np_index_def
        np_store_def b2)
  have k: "champ_constant [[Finite (3602879701896397 / 36028797018963968)]] (3602879701896397 / 36028797018963968)"
    by (simp add: champ_constant_def)
  show ?thesis using b0 m k by simp
qed

section \<open>Triangle-to-cell aggregation at a triangle without value\<close>

text \<open>
  Claim C2. The claim says that the triangle-to-cell aggregation excludes the pairs whose
  triangle value is not finite in both modes. The unweighted branch of
  \<open>sm_vers_mh_raster\<close> averages every value of the pixel's list: for a pixel covered by
  triangle 0 (value NaN) and triangle 1 (value 2.0) it stores NaN, where the weighted
  branch of the same function stores 2.0.
\<close>

theorem sm_vers_mh_raster_simple_garde_nan:
  "sm_vers_mh_raster exact [((0, 0), [(0, Finite 1), (1, Finite 1)])] [NaN, Finite 2] (1, 1) False
     = Inr [[NaN]]
   \<and> sm_vers_mh_raster exact [((0, 0), [(0, Finite 1), (1, Finite 1)])] [NaN, Finite 2] (1, 1) True
     = Inr [[Finite 2]]"
  by (simp add: sm_vers_mh_raster_def valeur_pixel_def np_index_def np_store2_def np_store_def
      np_mean_def pf_le_def exact_def)

text \<open>
  \<open>projette_triangles_surface\<close> tests \<open>np.isnan\<close>, so an infinite triangle value is
  not excluded either.
\<close>

lemma projette_triangles_surface_garde_inf:
  "projette_triangles_surface exact [PosInf, Finite 2] [((0, 0), [(0, Finite 1), (1, Finite 1)])] (1, 1) NaN
     = Inr [[PosInf]]"
  by (simp add: projette_triangles_surface_def np_index_def np_store2_def np_store_def
      pf_of_sign_def exact_def)

section \<open>Properties of the surface and barycentre mappers\<close>



lemma setdefault_append_keys: "fst ` set (setdefault_append k v d) = insert k (fst ` set d)"
  by (simp add: setdefault_append_def AList.dom_update)



lemma ajoute_pixel_keys: "fst ` set (ajoute_pixel G gt poly id_tri c m) \<subseteq> insert c (fst ` set m)"
  by (cases c) (auto simp: ajoute_pixel_def Let_def setdefault_append_keys simp del: image_insert)


lemma fold_ajoute_pixel_keys:
  "fst ` set (fold (ajoute_pixel G gt poly id_tri) cs m) \<subseteq> set cs \<union> fst ` set m"
proof (induction cs arbitrary: m)
  case Nil
  then show ?case by simp
next
  case (Cons c cs)
  from Cons.IH [of "ajoute_pixel G gt poly id_tri c m"] ajoute_pixel_keys [of G gt poly id_tri c m]
  show ?case by auto
qed

lemma set_pixels_candidats:
  "set (pixels_candidats lig_min lig_max col_min col_max)
     = {(l, c). lig_min \<le> l \<and> l \<le> lig_max \<and> col_min \<le> c \<and> c \<le> col_max}"
  by (auto simp: pixels_candidats_def)

lemma traite_triangle_cases:
  assumes "traite_triangle G points gt (nb_lignes, nb_colonnes) (id_tri, tri) m = Inr m'"
  obtains (degenere) pts where "sommets points tri = Inr pts"
      "poly_is_empty G (polygone_triangle pts) \<or> poly_area G (polygone_triangle pts) \<le> 0" "m' = m"
    | (candidats) pts lig_min lig_max col_min col_max where "sommets points tri = Inr pts"
      "\<not> (poly_is_empty G (polygone_triangle pts) \<or> poly_area G (polygone_triangle pts) \<le> 0)"
      "0 \<le> lig_min" "lig_max \<le> nb_lignes - 1" "0 \<le> col_min" "col_max \<le> nb_colonnes - 1"
      "m' = fold (ajoute_pixel G gt (polygone_triangle pts) id_tri)
              (pixels_candidats lig_min lig_max col_min col_max) m"
proof -
  obtain x0 dx rx y0 ry dy where gt: "gt = (x0, dx, rx, y0, ry, dy)" by (metis prod.exhaust)
  from assms obtain pts where pts: "sommets points tri = Inr pts"
    by (cases "sommets points tri") (simp_all add: traite_triangle_def gt)
  let ?P = "polygone_triangle pts"
  obtain minx miny maxx maxy where b: "poly_bounds G ?P = (minx, miny, maxx, maxy)"
    by (metis prod.exhaust)
  show thesis
  proof (cases "poly_is_empty G ?P \<or> poly_area G ?P \<le> 0")
    case True
    with assms pts have "m' = m" by (simp add: traite_triangle_def gt)
    with pts True show thesis by (rule degenere)
  next
    case False
    define col_min where "col_min = max \<lfloor>(minx - x0) / dx\<rfloor> 0"
    define lig_min where "lig_min = max \<lfloor>(maxy - y0) / dy\<rfloor> 0"
    define col_max where "col_max = min \<lfloor>(maxx - x0) / dx\<rfloor> (nb_colonnes - 1)"
    define lig_max where "lig_max = min \<lfloor>(miny - y0) / dy\<rfloor> (nb_lignes - 1)"
    from assms pts False b have nz: "dx \<noteq> 0" "dy \<noteq> 0"
      by (simp_all add: traite_triangle_def gt split: if_splits)
    from assms pts False b nz have
      m': "m' = fold (ajoute_pixel G gt ?P id_tri) (pixels_candidats lig_min lig_max col_min col_max) m"
      by (simp add: traite_triangle_def gt Let_def col_min_def lig_min_def col_max_def lig_max_def)
    have r: "0 \<le> lig_min" "lig_max \<le> nb_lignes - 1" "0 \<le> col_min" "col_max \<le> nb_colonnes - 1"
      by (simp_all add: col_min_def lig_min_def col_max_def lig_max_def)
    from pts False r m' show thesis by (rule candidats)
  qed
qed

lemma traite_triangle_keys:
  assumes "traite_triangle G points gt (nb_lignes, nb_colonnes) item m = Inr m'"
  shows "fst ` set m' \<subseteq> {(l, c). 0 \<le> l \<and> l < nb_lignes \<and> 0 \<le> c \<and> c < nb_colonnes} \<union> fst ` set m"
proof -
  obtain id_tri tri where item: "item = (id_tri, tri)" by (cases item)
  from assms [unfolded item] show ?thesis
  proof (cases rule: traite_triangle_cases)
    case (degenere pts)
    then show ?thesis by auto
  next
    case (candidats pts lig_min lig_max col_min col_max)
    have "set (pixels_candidats lig_min lig_max col_min col_max)
            \<subseteq> {(l, c). 0 \<le> l \<and> l < nb_lignes \<and> 0 \<le> c \<and> c < nb_colonnes}"
      using candidats(3-6) unfolding set_pixels_candidats by auto
    with fold_ajoute_pixel_keys [of G gt "polygone_triangle pts" id_tri
        "pixels_candidats lig_min lig_max col_min col_max" m]
    show ?thesis unfolding candidats(7) by blast
  qed
qed

lemma boucle_mapping_surface_keys:
  assumes "boucle_mapping_surface G points gt (nb_lignes, nb_colonnes) items m = Inr m'"
  shows "fst ` set m' \<subseteq> {(l, c). 0 \<le> l \<and> l < nb_lignes \<and> 0 \<le> c \<and> c < nb_colonnes} \<union> fst ` set m"
  using assms
proof (induction items arbitrary: m)
  case Nil
  then show ?case by auto
next
  case (Cons item items)
  from Cons.prems obtain m1 where
    m1: "traite_triangle G points gt (nb_lignes, nb_colonnes) item m = Inr m1"
    and r: "boucle_mapping_surface G points gt (nb_lignes, nb_colonnes) items m1 = Inr m'"
    by (auto split: sum.splits)
  from Cons.IH [OF r] traite_triangle_keys [OF m1] show ?case by blast
qed

lemma boucle_barycentre_keys:
  assumes "boucle_barycentre gt (nb_lignes, nb_colonnes) items m = Inr m'"
  shows "fst ` set m' \<subseteq> {(l, c). 0 \<le> l \<and> l < nb_lignes \<and> 0 \<le> c \<and> c < nb_colonnes} \<union> fst ` set m"
  using assms
proof (induction items arbitrary: m)
  case Nil
  then show ?case by auto
next
  case (Cons item items)
  obtain id_tri x y where item: "item = (id_tri, (x, y))" by (metis prod.exhaust)
  from Cons.prems obtain ligne colonne where p: "xy_vers_pixel x y gt = Inr (ligne, colonne)"
    by (auto simp: item split: sum.splits)
  show ?case
  proof (cases "0 \<le> ligne \<and> ligne < nb_lignes \<and> 0 \<le> colonne \<and> colonne < nb_colonnes")
    case True
    with Cons.prems p have
      "boucle_barycentre gt (nb_lignes, nb_colonnes) items (setdefault_append (ligne, colonne) id_tri m) = Inr m'"
      by (simp add: item)
    from Cons.IH [OF this] True show ?thesis
      by (auto simp: setdefault_append_keys simp del: image_insert)
  next
    case False
    with Cons.prems p have "boucle_barycentre gt (nb_lignes, nb_colonnes) items m = Inr m'"
      by (auto simp: item)
    from Cons.IH [OF this] show ?thesis .
  qed
qed

text \<open>
  Claim C9. Bounds invariant: for every mesh, geotransform and raster shape
  \<open>(nb_lignes, nb_colonnes)\<close>, every key \<open>(ligne, colonne)\<close> of the dictionary that
  \<open>mapping_surface\<close> returns, and every key of the dictionary that
  \<open>mapping_barycentre\<close> returns, has \<open>0 \<le> ligne < nb_lignes\<close> and
  \<open>0 \<le> colonne < nb_colonnes\<close>. It holds whatever the geometry library answers.
\<close>

theorem cles_dans_raster:
  "(mapping_surface G points triangles gt (nb_lignes, nb_colonnes) = Inr m
      \<longrightarrow> (\<forall>((ligne, colonne), lst) \<in> set m.
             0 \<le> ligne \<and> ligne < nb_lignes \<and> 0 \<le> colonne \<and> colonne < nb_colonnes))
   \<and> (mapping_barycentre points triangles gt (nb_lignes, nb_colonnes) = Inr mb
      \<longrightarrow> (\<forall>((ligne, colonne), ids) \<in> set mb.
             0 \<le> ligne \<and> ligne < nb_lignes \<and> 0 \<le> colonne \<and> colonne < nb_colonnes))"
proof (intro conjI impI)
  assume "mapping_surface G points triangles gt (nb_lignes, nb_colonnes) = Inr m"
  from boucle_mapping_surface_keys [OF this [unfolded mapping_surface_def]]
  show "\<forall>((ligne, colonne), lst) \<in> set m.
          0 \<le> ligne \<and> ligne < nb_lignes \<and> 0 \<le> colonne \<and> colonne < nb_colonnes"
    by fastforce
next
  assume "mapping_barycentre points triangles gt (nb_lignes, nb_colonnes) = Inr mb"
  then obtain bs where
    "boucle_barycentre gt (nb_lignes, nb_colonnes) (enumerate_py bs) [] = Inr mb"
    by (auto simp: mapping_barycentre_def split: sum.splits)
  from boucle_barycentre_keys [OF this]
  show "\<forall>((ligne, colonne), ids) \<in> set mb.
          0 \<le> ligne \<and> ligne < nb_lignes \<and> 0 \<le> colonne \<and> colonne < nb_colonnes"
    by fastforce
qed






section \<open>Clipping stays inside the triangle and the box\<close>














section \<open>Triangles outside the grid\<close>







section \<open>The mappers on concrete meshes\<close>

theorem cles_dans_raster_witness:
  "(\<exists>m. mapping_surface geometrie_exacte [(0, 0, 0), (1, 0, 0), (0, 1, 0)] [(0, 1, 2)]
           (0, 1, 0, 1, 0, -1) (1, 1) = Inr m
        \<and> m \<noteq> [] \<and> list_all (\<lambda>(cle, lst). 0 \<le> fst cle \<and> fst cle < 1 \<and> 0 \<le> snd cle \<and> snd cle < 1) m)
   \<and> (\<exists>mb. mapping_barycentre [(0, 0, 0), (1, 0, 0), (0, 1, 0)] [(0, 1, 2)]
           (0, 1, 0, 1, 0, -1) (1, 1) = Inr mb
        \<and> mb \<noteq> [] \<and> list_all (\<lambda>(cle, ids). 0 \<le> fst cle \<and> fst cle < 1 \<and> 0 \<le> snd cle \<and> snd cle < 1) mb)"
proof -
  have s: "mapping_surface geometrie_exacte [(0, 0, 0), (1, 0, 0), (0, 1, 0)] [(0, 1, 2)]
            (0, 1, 0, 1, 0, -1) (1, 1) = Inr [((0, 0), [(0, Finite (1 / 2))])]"
    by code_simp
  have b: "mapping_barycentre [(0, 0, 0), (1, 0, 0), (0, 1, 0)] [(0, 1, 2)]
            (0, 1, 0, 1, 0, -1) (1, 1) = Inr [((0, 0), [0])]"
    by code_simp
  from cles_dans_raster [of geometrie_exacte "[(0, 0, 0), (1, 0, 0), (0, 1, 0)]" "[(0, 1, 2)]"
      "(0, 1, 0, 1, 0, -1)" 1 1 "[((0, 0), [(0, Finite (1 / 2))])]" "[((0, 0), [0])]"]
  show ?thesis unfolding s b by (simp add: list_all_iff)
qed




section \<open>Grid indexing\<close>

text \<open>
  Claim C6. The claim says that \<open>xy_vers_pixel\<close> returns the cell that contains the
  point, \<open>ligne = floor((y - y_max) / dy)\<close> and \<open>colonne = floor((x - x_min) / dx)\<close>.
  The function converts with \<open>int()\<close>, which truncates towards zero: for the point
  \<open>(-0.5, 1.5)\<close> on the grid with origin \<open>(0, 2)\<close>, \<open>dx = 1\<close> and \<open>dy = -1\<close> it returns
  column 0, where the floor is -1 (the point lies left of the grid).
\<close>

theorem xy_vers_pixel_tronque:
  "xy_vers_pixel (- 1 / 2) (3 / 2) (0, 1, 0, 2, 0, - 1) = Inr (0, 0)
   \<and> \<lfloor>((- 1 / 2 :: real) - 0) / 1\<rfloor> = - 1
   \<and> \<lfloor>((3 / 2 :: real) - 2) / (- 1)\<rfloor> = 0"
proof -
  have "\<lceil>- (1 / 2) :: real\<rceil> = 0" by (rule ceiling_unique) simp_all
  then show ?thesis by (simp add: xy_vers_pixel_def py_div_def py_int_def)
qed

text \<open>For a point right of the left edge and below the top edge the two agree.\<close>

lemma xy_vers_pixel_dans_grille:
  assumes "0 < dx" and "dy < 0" and "x0 \<le> x" and "y \<le> y0"
  shows "xy_vers_pixel x y (x0, dx, rx, y0, ry, dy) = Inr (\<lfloor>(y - y0) / dy\<rfloor>, \<lfloor>(x - x0) / dx\<rfloor>)"
proof -
  have "0 \<le> (x - x0) / dx" using assms by simp
  moreover have "0 \<le> (y - y0) / dy" using assms by (simp add: divide_nonpos_neg)
  ultimately show ?thesis using assms by (simp add: xy_vers_pixel_def py_div_def py_int_def)
qed

text \<open>
  \<open>mapping_barycentre\<close> then assigns a triangle whose barycentre \<open>(-0.5, 1.83)\<close> is
  outside the grid to pixel \<open>(0, 0)\<close>.
\<close>

lemma mapping_barycentre_hors_grille:
  "mapping_barycentre [(- 1, 2, 0), (0, 2, 0), (- 1 / 2, 3 / 2, 0)] [(0, 1, 2)] (0, 1, 0, 2, 0, - 1) (2, 2)
     = Inr [((0, 0), [0])]"
  by code_simp

section \<open>Reading back what was written\<close>

lemma est_chiffre_chiffre: "d < 10 \<Longrightarrow> est_chiffre (chiffre d)"
  by (simp add: est_chiffre_def chiffre_def)

lemma valeur_chiffre_chiffre: "d < 10 \<Longrightarrow> valeur_chiffre (chiffre d) = int d"
  by (simp add: valeur_chiffre_def chiffre_def)

lemma est_chiffre_autres:
  assumes "est_chiffre c"
  shows "\<not> isspace c" and "c \<noteq> CHR ''.''" and "\<not> est_e c" and "c \<noteq> CHR ''-''" and "c \<noteq> CHR ''+''"
    and "c \<noteq> CHR ''_''" and "c \<noteq> CHR 0x09" and "lower_char c = c" and "c \<noteq> CHR ''n''" and "c \<noteq> CHR ''i''"
  using assms by (auto simp: est_chiffre_def isspace_def est_e_def lower_char_def)

lemma str_nat_chiffres: "set (str_nat n) \<subseteq> {c. est_chiffre c}"
proof (induction n rule: str_nat.induct)
  case (1 n)
  show ?case
  proof (cases "n < 10")
    case True
    then show ?thesis by (subst str_nat.simps) (simp add: est_chiffre_chiffre)
  next
    case False
    with 1 show ?thesis by (subst str_nat.simps) (simp add: est_chiffre_chiffre)
  qed
qed

lemma str_nat_non_vide: "str_nat n \<noteq> []"
  by (subst str_nat.simps) simp

lemma valeur_chiffres_snoc:
  "est_chiffre c \<Longrightarrow> valeur_chiffres (s @ [c]) = 10 * valeur_chiffres s + valeur_chiffre c"
  by (simp add: valeur_chiffres_def)

lemma valeur_chiffres_str_nat: "valeur_chiffres (str_nat n) = int n"
proof (induction n rule: str_nat.induct)
  case (1 n)
  show ?case
  proof (cases "n < 10")
    case True
    then show ?thesis
      by (subst str_nat.simps) (simp add: valeur_chiffres_def est_chiffre_chiffre valeur_chiffre_chiffre)
  next
    case False
    with 1 have "valeur_chiffres (str_nat (n div 10)) = int (n div 10)" by simp
    moreover have "10 * int (n div 10) + int (n mod 10) = int n"
      by (simp add: zdiv_int zmod_int)
    ultimately show ?thesis using False
      by (subst str_nat.simps)
        (simp add: valeur_chiffres_snoc est_chiffre_chiffre valeur_chiffre_chiffre)
  qed
qed

lemma soulignes_valides_chiffres: "set s \<subseteq> {c. est_chiffre c} \<Longrightarrow> soulignes_valides s"
  by (induction s rule: soulignes_valides.induct) auto

lemma partie_chiffres_chiffres:
  "s \<noteq> [] \<Longrightarrow> set s \<subseteq> {c. est_chiffre c} \<Longrightarrow> partie_chiffres s = Some (valeur_chiffres s)"
  by (cases s) (auto simp: partie_chiffres_def soulignes_valides_chiffres)

lemma partie_chiffres_str_nat: "partie_chiffres (str_nat n) = Some (int n)"
  by (simp add: partie_chiffres_chiffres str_nat_non_vide str_nat_chiffres valeur_chiffres_str_nat)

lemma mots_sans_espace: "sans_espace w \<Longrightarrow> mots cur (w @ reste) = mots (cur @ w) reste"
  by (induction w arbitrary: cur) (simp_all add: sans_espace_def)

lemma split_un_mot: "sans_espace w \<Longrightarrow> w \<noteq> [] \<Longrightarrow> split w = [w]"
  using mots_sans_espace [of w "[]" "[]"] by (simp add: split_def)

lemma split_deux_mots:
  assumes "sans_espace w1" "w1 \<noteq> []" "sans_espace w2" "w2 \<noteq> []"
  shows "split (w1 @ '' '' @ w2) = [w1, w2]"
proof -
  have "split (w1 @ '' '' @ w2) = mots w1 ('' '' @ w2)"
    using mots_sans_espace [OF assms(1), of "[]"] by (simp add: split_def)
  also have "\<dots> = w1 # mots [] (w2 @ [])" using assms(2) by (simp add: isspace_def)
  also have "\<dots> = [w1, w2]" using mots_sans_espace [OF assms(3), of "[]" "[]"] assms(4) by simp
  finally show ?thesis .
qed

lemma strip_entoure:
  assumes "w \<noteq> []" and "\<not> isspace (hd w)" and "\<not> isspace (last w)"
    and "\<forall>c \<in> set a. isspace c" and "\<forall>c \<in> set b. isspace c"
  shows "strip (a @ w @ b) = w"
proof -
  have "dropWhile isspace (a @ w @ b) = dropWhile isspace (w @ b)"
  proof (rule dropWhile_append2)
    fix x assume "x \<in> set a"
    then show "isspace x" using assms(4) by simp
  qed
  also have "\<dots> = w @ b" using assms(1,2) by (cases w) simp_all
  finally have 1: "dropWhile isspace (a @ w @ b) = w @ b" .
  have "dropWhile isspace (rev (w @ b)) = dropWhile isspace (rev b @ rev w)" by simp
  also have "\<dots> = dropWhile isspace (rev w)"
  proof (rule dropWhile_append2)
    fix x assume "x \<in> set (rev b)"
    then show "isspace x" using assms(5) by simp
  qed
  also have "\<dots> = rev w"
    using assms(1,3) by (cases "rev w") (auto simp: last_rev [symmetric] hd_rev)
  finally show ?thesis by (simp add: strip_def 1)
qed


lemma sans_espace_chiffres: "set s \<subseteq> {c. est_chiffre c} \<Longrightarrow> sans_espace s"
  by (auto simp: sans_espace_def est_chiffre_autres)

lemma str_nat_hd_last: "est_chiffre (hd (str_nat n))" "est_chiffre (last (str_nat n))"
  using str_nat_chiffres [of n] str_nat_non_vide [of n] hd_in_set last_in_set by blast+

lemma str_int_non_vide: "str_int i \<noteq> []"
  by (simp add: str_int_def str_nat_non_vide)

lemma sans_espace_str_int: "sans_espace (str_int i)"
  using sans_espace_chiffres [OF str_nat_chiffres]
  by (auto simp: str_int_def sans_espace_def isspace_def)

lemma entier_signe_str_int: "entier_signe (str_int i) = Some i"
proof (cases "i < 0")
  case True
  then show ?thesis by (simp add: str_int_def entier_signe_def partie_chiffres_str_nat)
next
  case False
  obtain c cs where s: "str_nat (nat i) = c # cs" using str_nat_non_vide [of "nat i"] by (cases "str_nat (nat i)") auto
  then have "est_chiffre c" using str_nat_hd_last(1) [of "nat i"] by simp
  then have "c \<noteq> CHR ''-''" "c \<noteq> CHR ''+''" by (simp_all add: est_chiffre_autres)
  moreover have "partie_chiffres (c # cs) = Some (int (nat i))" using partie_chiffres_str_nat [of "nat i"] s by simp
  ultimately show ?thesis using False by (simp add: str_int_def entier_signe_def s)
qed

lemma strip_sans_espace: "sans_espace w \<Longrightarrow> strip w = w"
proof (cases "w = []")
  case True
  then show ?thesis by (simp add: strip_def)
next
  case False
  assume "sans_espace w"
  with False have "\<not> isspace (hd w)" "\<not> isspace (last w)" by (simp_all add: sans_espace_def)
  from strip_entoure [OF False this, of "[]" "[]"] show ?thesis by simp
qed

lemma py_int_str_str_int: "py_int_str (str_int i) = Inr i"
  by (simp add: py_int_str_def strip_sans_espace sans_espace_str_int entier_signe_str_int)

text \<open>The line of a facet, as written and as read.\<close>

lemma strip_ligne_facette:
  "strip (''f'' @ str_int i @ '' '' @ str_int nb @ [CHR 0x0A]) = ''f'' @ str_int i @ '' '' @ str_int nb"
proof -
  let ?w = "''f'' @ str_int i @ '' '' @ str_int nb"
  have "last ?w = last (str_int nb)" using str_int_non_vide by simp
  then have "\<not> isspace (last ?w)"
    using sans_espace_str_int [of nb] str_int_non_vide [of nb] by (simp add: sans_espace_def)
  moreover have "\<not> isspace (hd ?w)" by (simp add: isspace_def)
  moreover have "\<forall>c \<in> set [CHR 0x0A]. isspace c" by (simp add: isspace_def)
  ultimately show ?thesis using strip_entoure [of ?w "[]" "[CHR 0x0A]"] by simp
qed

lemma split_ligne_facette:
  "split (''f'' @ str_int i @ '' '' @ str_int nb) = [''f'' @ str_int i, str_int nb]"
proof -
  have "sans_espace (''f'' @ str_int i)"
    using sans_espace_str_int [of i] by (simp add: sans_espace_def isspace_def)
  from split_deux_mots [OF this _ sans_espace_str_int str_int_non_vide, of nb]
  show ?thesis by simp
qed

lemma lire_ligne_facette:
  "lire_lignes rnd 0 (strip (''f'' @ str_int i @ '' '' @ str_int nb @ [CHR 0x0A]) # reste)
     = lire_lignes rnd (nat nb) reste"
proof -
  let ?w = "''f'' @ str_int i @ '' '' @ str_int nb"
  have "lire_lignes rnd 0 (?w # reste) = lire_lignes rnd (nat nb) reste"
    unfolding lire_lignes.simps split_ligne_facette
    by (simp add: startswith_def np_index_def py_int_str_str_int)
  then show ?thesis unfolding strip_ligne_facette .
qed

text \<open>The two decimals of a value, as written and as read.\<close>

lemma mantisse_decimales:
  assumes "ds \<noteq> []" and "set ds \<subseteq> {c. est_chiffre c}" and "d1 < 10" and "d2 < 10"
  shows "mantisse (ds @ ''.'' @ [chiffre d1, chiffre d2])
           = Some (real_of_int (valeur_chiffres ds) + real (10 * d1 + d2) / 100)"
proof -
  let ?fp = "[chiffre d1, chiffre d2]"
  have nd: "\<And>x. x \<in> set ds \<Longrightarrow> x \<noteq> CHR ''.''"
    using assms(2) est_chiffre_autres(2) by blast
  have tw: "takeWhile (\<lambda>c. c \<noteq> CHR ''.'') (ds @ ''.'' @ ?fp) = ds"
    using nd by (simp add: takeWhile_tail)
  have dw: "dropWhile (\<lambda>c. c \<noteq> CHR ''.'') (ds @ ''.'' @ ?fp) = ''.'' @ ?fp"
    using nd by (simp add: dropWhile_append2)
  have fc: "set ?fp \<subseteq> {c. est_chiffre c}" using assms(3,4) by (simp add: est_chiffre_chiffre)
  have fv: "valeur_chiffres ?fp = int (10 * d1 + d2)"
    using assms(3,4) by (simp add: valeur_chiffres_def est_chiffre_chiffre valeur_chiffre_chiffre)
  have fp: "partie_chiffres ?fp = Some (int (10 * d1 + d2))"
    using partie_chiffres_chiffres [OF _ fc] fv by simp
  have fl: "length (filter est_chiffre ?fp) = 2"
    using assms(3,4) by (simp add: est_chiffre_chiffre)
  have ip: "partie_chiffres ds = Some (valeur_chiffres ds)"
    by (rule partie_chiffres_chiffres [OF assms(1,2)])
  show ?thesis
    unfolding mantisse_def tw dw Let_def
    using assms(1) by (simp add: fp fl ip del: filter.simps)
qed

lemma nombre_decimal_decimales:
  assumes "ds \<noteq> []" and "set ds \<subseteq> {c. est_chiffre c}" and "d1 < 10" and "d2 < 10"
  shows "nombre_decimal (ds @ ''.'' @ [chiffre d1, chiffre d2])
           = Some (real_of_int (valeur_chiffres ds) + real (10 * d1 + d2) / 100)"
proof -
  let ?u = "ds @ ''.'' @ [chiffre d1, chiffre d2]"
  have ne: "\<forall>c \<in> set ?u. \<not> est_e c"
    using assms(2-4) est_chiffre_autres(3) est_chiffre_chiffre
    by (auto simp: est_e_def)
  then have tw: "takeWhile (\<lambda>c. \<not> est_e c) ?u = ?u" by (simp only: takeWhile_eq_all_conv) 
  from ne have dw: "dropWhile (\<lambda>c. \<not> est_e c) ?u = []" by (simp only: dropWhile_eq_Nil_conv)
  show ?thesis
    unfolding nombre_decimal_def tw dw Let_def mantisse_decimales [OF assms] by simp
qed

lemma centiemes_decoupe:
  "real (c div 100) + real (10 * (c mod 100 div 10) + c mod 10) / 100 = real c / 100"
proof -
  have "c mod 100 mod 10 = c mod 10" by (simp add: mod_mod_cancel)
  moreover have "10 * (c mod 100 div 10) + c mod 100 mod 10 = c mod 100" by simp
  ultimately have "10 * (c mod 100 div 10) + c mod 10 = c mod 100" by simp
  then have "real (c div 100) + real (10 * (c mod 100 div 10) + c mod 10) / 100
      = real (c div 100) + real (c mod 100) / 100" by simp
  also have "\<dots> = (real (c div 100) * 100 + real (c mod 100)) / 100" by (simp add: add_divide_distrib)
  also have "real (c div 100) * 100 + real (c mod 100) = real (c div 100 * 100 + c mod 100)"
    by (simp only: of_nat_add of_nat_mult of_nat_numeral)
  also have "c div 100 * 100 + c mod 100 = c" by simp
  finally show ?thesis .
qed

lemma decimales_proprietes:
  fixes c :: nat
  defines "u \<equiv> str_nat (c div 100) @ ''.'' @ [chiffre (c mod 100 div 10), chiffre (c mod 10)]"
  shows "u \<noteq> []" and "est_chiffre (hd u)" and "est_chiffre (last u)"
    and "\<forall>x \<in> set u. est_chiffre x \<or> x = CHR ''.''"
    and "nombre_decimal u = Some (real c / 100)"
proof -
  have d: "c mod 100 div 10 < 10" "c mod 10 < 10" by simp_all
  show "u \<noteq> []" by (simp add: u_def)
  show "est_chiffre (hd u)" using str_nat_hd_last(1) [of "c div 100"] str_nat_non_vide [of "c div 100"]
    by (simp add: u_def)
  show "est_chiffre (last u)" using d by (simp add: u_def est_chiffre_chiffre)
  show "\<forall>x \<in> set u. est_chiffre x \<or> x = CHR ''.''"
    using str_nat_chiffres [of "c div 100"] d by (auto simp: u_def est_chiffre_chiffre)
  show "nombre_decimal u = Some (real c / 100)"
    unfolding u_def
    using nombre_decimal_decimales [OF str_nat_non_vide str_nat_chiffres d, of "c div 100"]
    by (simp only: valeur_chiffres_str_nat of_int_of_nat_eq centiemes_decoupe)
qed

lemma point_tiret:
  shows "\<not> isspace CHR ''.''" and "\<not> isspace CHR ''-''" and "lower_char CHR ''.'' = CHR ''.''"
    and "CHR ''.'' \<noteq> CHR 0x09" and "CHR ''-'' \<noteq> CHR 0x09"
  by (simp_all add: isspace_def lower_char_def)

lemma lower_chiffres_point:
  assumes "\<forall>x \<in> set u. est_chiffre x \<or> x = CHR ''.''"
  shows "lower u = u"
  unfolding lower_def
proof (rule map_idI)
  fix x assume "x \<in> set u"
  with assms have "est_chiffre x \<or> x = CHR ''.''" by blast
  then show "lower_char x = x" using est_chiffre_autres(8) point_tiret(3) by blast
qed

lemma py_float_format_2f:
  "py_float rnd (format_2f (Finite v)) = Inr (Finite (rnd (arrondi_2 (Finite v))))"
proof -
  define c where "c = centiemes v"
  define u where "u = str_nat (c div 100) @ ''.'' @ [chiffre (c mod 100 div 10), chiffre (c mod 10)]"
  note p = decimales_proprietes [of c, folded u_def]
  have se: "sans_espace u"
    unfolding sans_espace_def using p(4) est_chiffre_autres(1) point_tiret(1) by blast
  have lo: "lower u = u" by (rule lower_chiffres_point [OF p(4)])
  obtain h r where hr: "u = h # r" using p(1) by (cases u) auto
  with p(2) have h: "est_chiffre h" by simp
  then have hn: "h \<noteq> CHR ''-''" "h \<noteq> CHR ''+''" "h \<noteq> CHR ''n''" "h \<noteq> CHR ''i''"
    by (simp_all add: est_chiffre_autres)
  then have ns: "u \<noteq> ''nan''" "u \<noteq> ''inf''" "u \<noteq> ''infinity''" by (auto simp: hr)
  show ?thesis
  proof (cases "v < 0")
    case True
    have f: "format_2f (Finite v) = CHR ''-'' # u" using True by (simp add: u_def c_def format_2f.simps)
    have "sans_espace (CHR ''-'' # u)" using se by (simp add: sans_espace_def point_tiret(2))
    then have st: "strip (CHR ''-'' # u) = CHR ''-'' # u" by (rule strip_sans_espace)
    show ?thesis
      unfolding f py_float_def st Let_def
      using True ns by (simp add: lo p(5) c_def)
  next
    case False
    have f: "format_2f (Finite v) = u" using False by (simp add: u_def c_def format_2f.simps)
    have st: "strip u = u" using se by (rule strip_sans_espace)
    have hd: "hd u \<noteq> CHR ''-''" "hd u \<noteq> CHR ''+''" using hn by (simp_all add: hr)
    show ?thesis
      unfolding f py_float_def st Let_def
      using False ns hd by (simp add: lo p(5) c_def)
  qed
qed

lemma format_2f_mot:
  shows "format_2f (Finite v) \<noteq> []" and "sans_espace (format_2f (Finite v))"
    and "replace_tab (format_2f (Finite v)) = format_2f (Finite v)"
proof -
  define c where "c = centiemes v"
  define u where "u = str_nat (c div 100) @ ''.'' @ [chiffre (c mod 100 div 10), chiffre (c mod 10)]"
  note p = decimales_proprietes [of c, folded u_def]
  have f: "format_2f (Finite v) = (if v < 0 then ''-'' else []) @ u"
    by (simp add: u_def c_def format_2f.simps)
  have a: "\<forall>x \<in> set (format_2f (Finite v)). est_chiffre x \<or> x = CHR ''.'' \<or> x = CHR ''-''"
    unfolding f using p(4) by auto
  show "format_2f (Finite v) \<noteq> []" unfolding f using p(1) by simp
  show "sans_espace (format_2f (Finite v))"
    unfolding sans_espace_def using a est_chiffre_autres(1) point_tiret(1,2) by blast
  show "replace_tab (format_2f (Finite v)) = format_2f (Finite v)"
    unfolding replace_tab_def
  proof (rule map_idI)
    fix x assume "x \<in> set (format_2f (Finite v))"
    with a have "est_chiffre x \<or> x = CHR ''.'' \<or> x = CHR ''-''" by blast
    then have "x \<noteq> CHR 0x09" using est_chiffre_autres(7) point_tiret(4,5) by blast
    then show "(if x = CHR 0x09 then CHR '' '' else x) = x" by simp
  qed
qed

lemma lire_ligne_valeur:
  "lire_lignes rnd (Suc n) (strip ([CHR 0x09] @ format_2f (Finite v) @ [CHR 0x0A]) # reste)
     = (case lire_lignes rnd n reste of
          Inl e \<Rightarrow> Inl e
        | Inr valeurs \<Rightarrow> Inr (Finite (rnd (arrondi_2 (Finite v))) # valeurs))"
proof -
  define w where "w = format_2f (Finite v)"
  note m = format_2f_mot [of v, folded w_def]
  have "\<not> isspace (hd w)" "\<not> isspace (last w)"
    using m(1,2) hd_in_set last_in_set unfolding sans_espace_def by blast+
  from strip_entoure [OF m(1) this, of "[CHR 0x09]" "[CHR 0x0A]"]
  have st: "strip ([CHR 0x09] @ w @ [CHR 0x0A]) = w" by (simp add: isspace_def)
  have sp: "split (replace_tab w) = [w]"
    unfolding m(3) by (rule split_un_mot [OF m(2,1)])
  have pf: "py_float rnd w = Inr (Finite (rnd (arrondi_2 (Finite v))))"
    unfolding w_def by (rule py_float_format_2f)
  have "lire_lignes rnd (Suc n) (strip ([CHR 0x09] @ w @ [CHR 0x0A]) # reste)
     = (case lire_lignes rnd n reste of
          Inl e \<Rightarrow> Inl e
        | Inr valeurs \<Rightarrow> Inr (Finite (rnd (arrondi_2 (Finite v))) # valeurs))"
    unfolding st lire_lignes.simps sp
    by (cases "lire_lignes rnd n reste") (simp_all add: np_index_def pf)
  then show ?thesis unfolding w_def .
qed

lemma centiemes_0: "centiemes 0 = 0"
  by (simp add: centiemes_def round_half_even_def)

lemma ecrit_fini:
  "\<exists>x. (if \<not> isfinite v then Finite 0 else v) = Finite x \<and> arrondi_2 v = arrondi_2 (Finite x)"
  by (cases v) (simp_all add: centiemes_0)

lemma lire_ligne_valeur_relue:
  "lire_lignes rnd (Suc n) (strip (ligne_valeur v) # reste)
     = (case lire_lignes rnd n reste of
          Inl e \<Rightarrow> Inl e
        | Inr valeurs \<Rightarrow> Inr (valeur_relue rnd v # valeurs))"
proof -
  from ecrit_fini [of v] obtain x where
    x: "(if \<not> isfinite v then Finite 0 else v) = Finite x" "arrondi_2 v = arrondi_2 (Finite x)"
    by blast
  show ?thesis
    unfolding ligne_valeur_def valeur_relue_def x by (rule lire_ligne_valeur)
qed

lemma strip_ligne_valeur_non_vide: "strip (ligne_valeur v) \<noteq> []"
proof -
  from ecrit_fini [of v] obtain x where
    x: "(if \<not> isfinite v then Finite 0 else v) = Finite x" by blast
  define w where "w = format_2f (Finite x)"
  note m = format_2f_mot [of x, folded w_def]
  have "\<not> isspace (hd w)" "\<not> isspace (last w)"
    using m(1,2) hd_in_set last_in_set unfolding sans_espace_def by blast+
  from strip_entoure [OF m(1) this, of "[CHR 0x09]" "[CHR 0x0A]"]
  have "strip ([CHR 0x09] @ w @ [CHR 0x0A]) = w" by (simp add: isspace_def)
  with m(1) show ?thesis unfolding ligne_valeur_def x w_def by simp
qed

lemma ecrire_valeurs_lignes:
  "k + n \<le> length val_tri \<Longrightarrow>
     ecrire_valeurs val_tri k n = Inr (map ligne_valeur (take n (drop k val_tri)))"
proof (induction n arbitrary: k)
  case 0
  then show ?case by simp
next
  case (Suc n)
  then have k: "k < length val_tri" and r: "Suc k + n \<le> length val_tri" by simp_all
  have t: "take (Suc n) (drop k val_tri) = val_tri ! k # take n (drop (Suc k) val_tri)"
    using k by (simp add: Cons_nth_drop_Suc [symmetric])
  have ih: "ecrire_valeurs val_tri (Suc k) n = Inr (map ligne_valeur (take n (drop (Suc k) val_tri)))"
    by (rule Suc.IH [OF r])
  show ?case
    using k by (simp add: ih t np_index_def ligne_valeur_def)
qed

lemma lire_lignes_valeurs:
  "length vs = n \<Longrightarrow>
     lire_lignes rnd n (map strip (map ligne_valeur vs) @ reste)
       = (case lire_lignes rnd 0 reste of
            Inl e \<Rightarrow> Inl e
          | Inr valeurs \<Rightarrow> Inr (map (valeur_relue rnd) vs @ valeurs))"
proof (induction vs arbitrary: n)
  case Nil
  then show ?case by (cases "lire_lignes rnd 0 reste") simp_all
next
  case (Cons v vs)
  then obtain m where n: "n = Suc m" and m: "length vs = m" by (cases n) auto
  show ?case
    unfolding n using Cons.IH [OF m]
    by (cases "lire_lignes rnd 0 reste") (simp_all add: lire_ligne_valeur_relue)
qed

lemma ecrire_facettes_relues:
  assumes "k + sum_list (map nat tailles) \<le> length val_tri"
  shows "\<exists>ls. ecrire_facettes val_tri i tailles k = Inr ls
           \<and> (\<forall>l \<in> set ls. strip l \<noteq> [])
           \<and> (\<forall>reste. lire_lignes rnd 0 (map strip ls @ reste)
                 = (case lire_lignes rnd 0 reste of
                      Inl e \<Rightarrow> Inl e
                    | Inr valeurs \<Rightarrow>
                        Inr (map (valeur_relue rnd) (take (sum_list (map nat tailles)) (drop k val_tri))
                             @ valeurs)))"
  using assms
proof (induction tailles arbitrary: i k)
  case Nil
  show ?case
  proof (intro exI conjI allI)
    show "ecrire_facettes val_tri i [] k = Inr []" by simp
    show "\<forall>l \<in> set []. strip l \<noteq> []" by simp
    fix reste
    show "lire_lignes rnd 0 (map strip [] @ reste)
            = (case lire_lignes rnd 0 reste of
                 Inl e \<Rightarrow> Inl e
               | Inr valeurs \<Rightarrow>
                   Inr (map (valeur_relue rnd) (take (sum_list (map nat [])) (drop k val_tri)) @ valeurs))"
      by (cases "lire_lignes rnd 0 reste") simp_all
  qed
next
  case (Cons nb tailles)
  define n where "n = nat nb"
  define S where "S = sum_list (map nat tailles)"
  from Cons.prems have kn: "k + n \<le> length val_tri" and kS: "(k + n) + S \<le> length val_tri"
    by (simp_all add: n_def S_def)
  from Cons.IH [OF kS [unfolded S_def], of "i + 1"] obtain ls' where
    ls': "ecrire_facettes val_tri (i + 1) tailles (k + n) = Inr ls'"
      "\<forall>l \<in> set ls'. strip l \<noteq> []"
      "\<And>reste. lire_lignes rnd 0 (map strip ls' @ reste)
         = (case lire_lignes rnd 0 reste of
              Inl e \<Rightarrow> Inl e
            | Inr valeurs \<Rightarrow>
                Inr (map (valeur_relue rnd) (take S (drop (k + n) val_tri)) @ valeurs))"
    unfolding S_def by blast
  define vs where "vs = take n (drop k val_tri)"
  define lf where "lf = ''f'' @ str_int i @ '' '' @ str_int nb @ [CHR 0x0A]"
  have lv: "length vs = n" using kn by (simp add: vs_def)
  have e: "ecrire_facettes val_tri i (nb # tailles) k = Inr (lf # map ligne_valeur vs @ ls')"
    by (simp add: ecrire_valeurs_lignes [OF kn] ls'(1) n_def [symmetric] vs_def lf_def)
  have sf: "strip lf = ''f'' @ str_int i @ '' '' @ str_int nb"
    unfolding lf_def by (rule strip_ligne_facette)
  have ne: "\<forall>l \<in> set (lf # map ligne_valeur vs @ ls'). strip l \<noteq> []"
    using ls'(2) strip_ligne_valeur_non_vide by (auto simp: sf)
  have ns: "sum_list (map nat (nb # tailles)) = n + S" by (simp add: n_def S_def)
  have tk: "take (n + S) (drop k val_tri) = vs @ take S (drop (k + n) val_tri)"
    unfolding vs_def take_add drop_drop by (simp add: add.commute)
  have rd: "lire_lignes rnd 0 (map strip (lf # map ligne_valeur vs @ ls') @ reste)
         = (case lire_lignes rnd 0 reste of
              Inl e \<Rightarrow> Inl e
            | Inr valeurs \<Rightarrow>
                Inr (map (valeur_relue rnd) (take (sum_list (map nat (nb # tailles))) (drop k val_tri))
                     @ valeurs))" for reste
  proof -
    have "lire_lignes rnd 0 (map strip (lf # map ligne_valeur vs @ ls') @ reste)
            = lire_lignes rnd 0 (strip lf # (map strip (map ligne_valeur vs) @ (map strip ls' @ reste)))"
      by simp
    also have "\<dots> = lire_lignes rnd n (map strip (map ligne_valeur vs) @ (map strip ls' @ reste))"
      unfolding lf_def n_def by (rule lire_ligne_facette)
    also have "\<dots> = (case lire_lignes rnd 0 (map strip ls' @ reste) of
            Inl e \<Rightarrow> Inl e
          | Inr valeurs \<Rightarrow> Inr (map (valeur_relue rnd) vs @ valeurs))"
      by (rule lire_lignes_valeurs [OF lv])
    also have "\<dots> = (case lire_lignes rnd 0 reste of
              Inl e \<Rightarrow> Inl e
            | Inr valeurs \<Rightarrow>
                Inr (map (valeur_relue rnd) (take (n + S) (drop k val_tri)) @ valeurs))"
      unfolding ls'(3) tk by (cases "lire_lignes rnd 0 reste") simp_all
    finally show ?thesis unfolding ns .
  qed
  from e ne rd show ?case by blast
qed

lemma strip_non_vide: "s \<noteq> [] \<Longrightarrow> \<not> isspace (hd s) \<Longrightarrow> strip s \<noteq> []"
proof -
  assume s: "s \<noteq> []" and h: "\<not> isspace (hd s)"
  then have d: "dropWhile isspace s = s" by (cases s) simp_all
  have "hd s \<in> set (rev s)" using s by simp
  with h have "dropWhile isspace (rev s) \<noteq> []"
    unfolding dropWhile_eq_Nil_conv by blast
  then show ?thesis by (simp add: strip_def d)
qed

text \<open>
  Claim C8, as amended. For every list of facet sizes and every array of values whose
  length is the sum of the sizes, \<open>ecrire_val\<close> writes a file from which \<open>lire_val\<close>
  reads, in the same facet order, each finite value rounded to two decimals (the format
  \<open>.2f\<close> of the file; \<open>rnd\<close> is the rounding of \<open>float()\<close> to a double) and \<open>0.0\<close> for
  each value that is not finite.
\<close>

theorem ecrire_val_lire_val:
  assumes "\<forall>n \<in> set tailles_facettes. 0 \<le> n"
    and "int (length val_tri) = sum_list tailles_facettes"
  shows "\<exists>fichier. ecrire_val tailles_facettes val_tri = Inr fichier
           \<and> lire_val rnd fichier = Inr (map (\<lambda>v. Finite (rnd (arrondi_2 v))) val_tri)"
proof -
  have "int (sum_list (map nat tailles_facettes)) = sum_list tailles_facettes"
    using assms(1) by (induction tailles_facettes) simp_all
  with assms(2) have S: "sum_list (map nat tailles_facettes) = length val_tri" by simp
  then have "0 + sum_list (map nat tailles_facettes) \<le> length val_tri" by simp
  from ecrire_facettes_relues [OF this, of 1 rnd] obtain ls where
    ls: "ecrire_facettes val_tri 1 tailles_facettes 0 = Inr ls"
      "\<forall>l \<in> set ls. strip l \<noteq> []"
    and rd: "\<forall>reste. lire_lignes rnd 0 (map strip ls @ reste)
                 = (case lire_lignes rnd 0 reste of
                      Inl e \<Rightarrow> Inl e
                    | Inr valeurs \<Rightarrow>
                        Inr (map (valeur_relue rnd)
                               (take (sum_list (map nat tailles_facettes)) (drop 0 val_tri)) @ valeurs))"
    by blast
  from rd [rule_format, of "[]"]
  have ls3: "lire_lignes rnd 0 (map strip ls) = Inr (map (valeur_relue rnd) val_tri)"
    by (simp add: S lire_lignes.simps(1))
  define fini where "fini = filter isfinite val_tri"
  define h where "h = str_int (int (length tailles_facettes)) @ '' '' @ str_int (int (length tailles_facettes))
      @ [CHR 0x09] @ '' '' @ format_2f (if fini \<noteq> [] then np_min fini else Finite 0) @ '' ''
      @ format_2f (if fini \<noteq> [] then np_max fini else Finite 0) @ [CHR 0x0A]"
  have e: "ecrire_val tailles_facettes val_tri = Inr (h # ls)"
    by (simp add: ecrire_val_def Let_def ls(1) h_def fini_def)
  have "hd h = hd (str_int (int (length tailles_facettes)))"
    using str_int_non_vide by (simp add: h_def)
  then have "\<not> isspace (hd h)"
    using sans_espace_str_int [of "int (length tailles_facettes)"]
      str_int_non_vide [of "int (length tailles_facettes)"]
    by (simp add: sans_espace_def)
  moreover have "h \<noteq> []" by (simp add: h_def)
  ultimately have hs: "strip h \<noteq> []" by (simp add: strip_non_vide)
  have f: "filter (\<lambda>l. l \<noteq> []) (map strip ls) = map strip ls"
    using ls(2) by (simp add: filter_id_conv)
  have "lire_val rnd (h # ls) = Inr (map (valeur_relue rnd) val_tri)"
    using hs ls3 by (simp add: lire_val_def Let_def f)
  then have "lire_val rnd (h # ls) = Inr (map (\<lambda>v. Finite (rnd (arrondi_2 v))) val_tri)"
    by (simp add: valeur_relue_def [abs_def])
  with e show ?thesis by blast
qed

theorem ecrire_val_lire_val_witness:
  "int (length [Finite (5 / 16), NaN, Finite (- 7 / 2)]) = sum_list [2, 0, 1]
   \<and> (\<exists>fichier. ecrire_val [2, 0, 1] [Finite (5 / 16), NaN, Finite (- 7 / 2)] = Inr fichier
        \<and> lire_val exact fichier = Inr [Finite (31 / 100), Finite 0, Finite (- 7 / 2)])"
proof -
  have a: "\<forall>n \<in> set [2, 0, 1 :: int]. 0 \<le> n" by simp
  have b: "int (length [Finite (5 / 16), NaN, Finite (- 7 / 2)]) = sum_list [2, 0, 1]" by simp
  have c: "centiemes (5 / 16) = 31" "centiemes (- 7 / 2) = 350" "centiemes (- (7 / 2)) = 350" "centiemes 0 = 0"
    by (simp_all add: centiemes_def round_half_even_def)
  from ecrire_val_lire_val [OF a b, of exact] b show ?thesis
    by (simp add: exact_def c)
qed

text \<open>
  The value \<open>0.3125\<close> is written as \<open>0.31\<close> and read back as the double nearest to
  \<open>0.31\<close>.
\<close>

theorem ecrire_val_lire_val_counterexample:
  "ecrire_val [1] [Finite (5 / 16)]
     = Inr [''1 1'' @ [CHR 0x09] @ '' 0.31 0.31'' @ [CHR 0x0A], ''f1 1'' @ [CHR 0x0A],
            [CHR 0x09] @ ''0.31'' @ [CHR 0x0A]]
   \<and> lire_val binary64 [''1 1'' @ [CHR 0x09] @ '' 0.31 0.31'' @ [CHR 0x0A], ''f1 1'' @ [CHR 0x0A],
            [CHR 0x09] @ ''0.31'' @ [CHR 0x0A]] = Inr [Finite (5584463537939415 / 18014398509481984)]
   \<and> (5584463537939415 / 18014398509481984 :: real) \<noteq> 5 / 16"
proof -
  have 1: "ecrire_val [1] [Finite (5 / 16)]
     = Inr [''1 1'' @ [CHR 0x09] @ '' 0.31 0.31'' @ [CHR 0x0A], ''f1 1'' @ [CHR 0x0A],
            [CHR 0x09] @ ''0.31'' @ [CHR 0x0A]]"
    by code_simp
  have 2: "lire_val binary64 [''1 1'' @ [CHR 0x09] @ '' 0.31 0.31'' @ [CHR 0x0A], ''f1 1'' @ [CHR 0x0A],
            [CHR 0x09] @ ''0.31'' @ [CHR 0x0A]] = Inr [Finite (5584463537939415 / 18014398509481984)]"
    by code_simp
  from 1 2 show ?thesis by simp
qed

section \<open>Nodata values of the raster file\<close>

lemma masque_nan_deux_fois:
  "masque_nan (Finite 9999) (masque_nan d ras)
     = map (map (\<lambda>x. if pf_eq x d \<or> pf_eq x (Finite 9999) then NaN else x)) ras"
  by (auto simp: masque_nan_def)

text \<open>
  Claim C10. Nodata coercion at the reader boundary: whenever \<open>lire_mh_ascii\<close> returns,
  the nodata value it reports is 9999.0 whatever NODATA value the file declares, and the
  raster it returns is the raster of the file with NaN in place of every cell equal to
  the declared NODATA value and of every cell equal to 9999.0; the other cells are
  unchanged. So a data value 9999.0 of a file that declares another NODATA value becomes
  no-data (the example that follows reads such a file).
\<close>

theorem lire_mh_ascii_nodata:
  assumes "lire_mh_ascii rnd fichier = Inr (ras, gt, nd)"
  shows "nd = Finite 9999
     \<and> (\<exists>brut nodata_fichier. lecture_mh rnd fichier = Inr (brut, gt, nodata_fichier)
          \<and> ras = map (map (\<lambda>x. if pf_eq x nodata_fichier \<or> pf_eq x (Finite 9999) then NaN else x)) brut)"
proof -
  from assms obtain brut nodata_fichier where
    l: "lecture_mh rnd fichier = Inr (brut, gt, nodata_fichier)"
    and r: "ras = masque_nan NODATA_MH (masque_nan nodata_fichier brut)" and n: "nd = NODATA_MH"
    by (auto simp: lire_mh_ascii_def Let_def split: sum.splits)
  from l r n show ?thesis by (auto simp: NODATA_MH_def masque_nan_deux_fois)
qed

theorem lire_mh_ascii_nodata_witness:
  "lire_mh_ascii exact [''ncols 3'', ''nrows 1'', ''xllcorner 10'', ''yllcorner 20'', ''cellsize 2'',
       ''NODATA_value -1'', ''9999 -1 5'']
     = Inr ([[NaN, NaN, Finite 5]], (Finite 10, Finite 2, Finite 0, Finite 22, Finite 0, Finite (- 2)), Finite 9999)
   \<and> lecture_mh exact [''ncols 3'', ''nrows 1'', ''xllcorner 10'', ''yllcorner 20'', ''cellsize 2'',
       ''NODATA_value -1'', ''9999 -1 5'']
     = Inr ([[Finite 9999, Finite (- 1), Finite 5]],
            (Finite 10, Finite 2, Finite 0, Finite 22, Finite 0, Finite (- 2)), Finite (- 1))"
proof -
  have 1: "lire_mh_ascii exact [''ncols 3'', ''nrows 1'', ''xllcorner 10'', ''yllcorner 20'', ''cellsize 2'',
       ''NODATA_value -1'', ''9999 -1 5'']
     = Inr ([[NaN, NaN, Finite 5]], (Finite 10, Finite 2, Finite 0, Finite 22, Finite 0, Finite (- 2)), Finite 9999)"
    by code_simp
  have 2: "lecture_mh exact [''ncols 3'', ''nrows 1'', ''xllcorner 10'', ''yllcorner 20'', ''cellsize 2'',
       ''NODATA_value -1'', ''9999 -1 5'']
     = Inr ([[Finite 9999, Finite (- 1), Finite 5]],
            (Finite 10, Finite 2, Finite 0, Finite 22, Finite 0, Finite (- 2)), Finite (- 1))"
    by code_simp
  from lire_mh_ascii_nodata [OF 1] 1 2 show ?thesis by simp
qed

end
